theory Spec2Isabelle
  imports Complex_Main "HOL-Library.Word" "HOL-Library.Char_ord" "HOL-Library.List_Lexorder"
begin

unbundle bit_operations_syntax

section \<open>sql/type.go: NULL handling and tuple arity\<close>

text \<open>
  A Go \<open>interface{}\<close> holding a SQL cell is either \<open>nil\<close> (SQL NULL) or a concrete
  value: \<open>'a option\<close>. \<open>Type.Compare\<close> documents its result as
  \<open>0 if a==b, -1 if a < b, and +1 if a > b\<close>, and the comment of \<open>CompareNulls\<close> says that
  the returned integer follows the rule that nulls are ordered before non-nulls.
\<close>

definition CompareNulls :: "'a option \<Rightarrow> 'b option \<Rightarrow> bool \<times> int" where
  "CompareNulls a b =
     (let aIsNull = (a = None); bIsNull = (b = None) in
      if aIsNull \<and> bIsNull then (True, 0)
      else if aIsNull \<and> \<not> bIsNull then (True, 1)
      else if \<not> aIsNull \<and> bIsNull then (True, - 1)
      else (False, 0))"

text \<open>
  A SQL type is a tuple of types or any other type; only the tuple shape matters to the
  arity checks, so every non-tuple type is \<open>BaseType\<close> with its name.
\<close>

datatype Type = TupleType "Type list" | BaseType string

datatype type_error =
    ErrInvalidOperandColumns nat nat
  | IndexOutOfRange

fun NumColumns :: "Type \<Rightarrow> nat" where
  "NumColumns (TupleType v) = length v"
| "NumColumns (BaseType _) = 1"

text \<open>
  \<open>ErrIfMismatchedColumns\<close>: \<open>None\<close> is Go's \<open>nil\<close> error. The loop ranges over
  \<open>v1\<close> and reads \<open>v2[i]\<close>; a read past the end of \<open>v2\<close> would panic, which is
  the \<open>IndexOutOfRange\<close> branch of \<open>mismatch_loop\<close>.
\<close>

fun ErrIfMismatchedColumns :: "Type \<Rightarrow> Type \<Rightarrow> type_error option"
  and mismatch_loop :: "Type list \<Rightarrow> Type list \<Rightarrow> type_error option" where
  "ErrIfMismatchedColumns t1 t2 =
     (if NumColumns t1 \<noteq> NumColumns t2
      then Some (ErrInvalidOperandColumns (NumColumns t1) (NumColumns t2))
      else (case t1 of
              TupleType v1 \<Rightarrow>
                (case t2 of TupleType v2 \<Rightarrow> mismatch_loop v1 v2 | BaseType _ \<Rightarrow> None)
            | BaseType _ \<Rightarrow> None))"
| "mismatch_loop [] _ = None"
| "mismatch_loop (x # xs) [] = Some IndexOutOfRange"
| "mismatch_loop (x # xs) (y # ys) =
     (case ErrIfMismatchedColumns x y of
        Some e \<Rightarrow> Some e
      | None \<Rightarrow> mismatch_loop xs ys)"

text \<open>
  The claim's own words, as a predicate: the column counts differ, or both are tuples and
  some corresponding pair of subtypes is, recursively, mismatched.
\<close>

fun columns_mismatched :: "Type \<Rightarrow> Type \<Rightarrow> bool"
  and some_pair_mismatched :: "Type list \<Rightarrow> Type list \<Rightarrow> bool" where
  "columns_mismatched t1 t2 =
     (NumColumns t1 \<noteq> NumColumns t2 \<or>
      (case t1 of
         TupleType v1 \<Rightarrow>
           (case t2 of TupleType v2 \<Rightarrow> some_pair_mismatched v1 v2 | BaseType _ \<Rightarrow> False)
       | BaseType _ \<Rightarrow> False))"
| "some_pair_mismatched (x # xs) (y # ys) =
     (columns_mismatched x y \<or> some_pair_mismatched xs ys)"
| "some_pair_mismatched _ _ = False"


section \<open>Go values\<close>

text \<open>
  A \<open>float64\<close> (or \<open>float32\<close>) is a finite number, an infinity (\<open>Inf True\<close> is the
  negative one) or NaN. A finite float is carried as the real number it denotes, so \<open>+0\<close>
  and \<open>-0\<close> are the same value, as they are for Go's \<open>==\<close>.
\<close>

datatype float = Fin real | Inf bool | NaN

text \<open>
  The spatial values of package \<open>sql\<close>, with the fields that \<open>ST_AREA\<close> reads. The
  coordinates of a point are \<open>float64\<close> values.
\<close>

record Point =
  X :: float
  Y :: float

record LineString =
  Points :: "Point list"

record Polygon =
  Lines :: "LineString list"

text \<open>
  What a Go \<open>interface{}\<close> cell can hold. \<open>int\<close> and \<open>uint\<close> are the 64-bit ones of the
  platforms the engine is built for; a \<open>time.Time\<close> is carried by what its \<open>UnixNano()\<close>
  returns; \<open>VOther\<close> is a value of any other Go type, with the type's name.
\<close>

datatype "value" =
    VNil
  | VBool bool
  | VInt "64 word"
  | VInt64 "64 word"
  | VInt32 "32 word"
  | VInt16 "16 word"
  | VInt8 "8 word"
  | VUint "64 word"
  | VUint64 "64 word"
  | VUint32 "32 word"
  | VUint16 "16 word"
  | VUint8 "8 word"
  | VDuration "64 word"
  | VTime "64 word"
  | VFloat32 float
  | VFloat64 float
  | VString string
  | VPoint Point
  | VLineString LineString
  | VPolygon Polygon
  | VOther string

section \<open>strconv.ParseFloat\<close>

text \<open>
  \<open>ConvertToBool\<close> hands a string to \<open>strconv.ParseFloat(b, 64)\<close> of Go's standard
  library. The functions below follow that library's \<open>special\<close>, \<open>readFloat\<close>,
  \<open>underscoreOK\<close> and \<open>ParseFloat\<close>: an optional sign, decimal or \<open>0x\<close> hexadecimal
  digits with at most one point, an exponent (\<open>e\<close>, or the mandatory \<open>p\<close> of a hexadecimal
  float), underscores between digits, and the words \<open>inf\<close>, \<open>infinity\<close> and \<open>nan\<close>. The
  whole string must be consumed. The mantissa is kept exact where the library keeps 19
  digits and a truncation flag; \<open>float64_round\<close> gives what correct rounding gives: a range
  error from \<open>2^1024 - 2^970\<close> on, zero up to \<open>2^-1075\<close>, and otherwise a non-zero finite
  number, which is carried unrounded.
\<close>

datatype num_error = ErrSyntax | ErrRange

definition lower :: "char \<Rightarrow> nat" where
  "lower c = (of_char c :: nat) OR 32"

definition is_digit :: "char \<Rightarrow> bool" where
  "is_digit c \<longleftrightarrow> CHR ''0'' \<le> c \<and> c \<le> CHR ''9''"

definition is_hex_letter :: "char \<Rightarrow> bool" where
  "is_hex_letter c \<longleftrightarrow> of_char CHR ''a'' \<le> lower c \<and> lower c \<le> of_char CHR ''f''"

fun commonPrefixLenIgnoreCase :: "string \<Rightarrow> string \<Rightarrow> nat" where
  "commonPrefixLenIgnoreCase (c # s) (p # prefix) =
     (let c' = (if CHR ''A'' \<le> c \<and> c \<le> CHR ''Z'' then of_char c + 32 else of_char c :: nat)
      in if c' \<noteq> of_char p then 0 else Suc (commonPrefixLenIgnoreCase s prefix))"
| "commonPrefixLenIgnoreCase _ _ = 0"

definition infinity_len :: "string \<Rightarrow> nat option" where
  "infinity_len s =
     (let n = commonPrefixLenIgnoreCase s ''infinity'';
          n = (if 3 < n \<and> n < 8 then 3 else n)
      in if n = 3 \<or> n = 8 then Some n else None)"

definition special :: "string \<Rightarrow> (float \<times> nat) option" where
  "special s =
     (case s of
        [] \<Rightarrow> None
      | c # t \<Rightarrow>
          if c = CHR ''+'' \<or> c = CHR ''-'' then
            (case infinity_len t of
               Some n \<Rightarrow> Some (Inf (c = CHR ''-''), 1 + n)
             | None \<Rightarrow> None)
          else if c = CHR ''i'' \<or> c = CHR ''I'' then
            (case infinity_len s of Some n \<Rightarrow> Some (Inf False, n) | None \<Rightarrow> None)
          else if c = CHR ''n'' \<or> c = CHR ''N'' then
            (if commonPrefixLenIgnoreCase s ''nan'' = 3 then Some (NaN, 3) else None)
          else None)"

fun underscore_loop :: "bool \<Rightarrow> char \<Rightarrow> string \<Rightarrow> bool" where
  "underscore_loop hex i [] = (i \<noteq> CHR ''_'')"
| "underscore_loop hex i (c # s) =
     (if is_digit c \<or> (hex \<and> is_hex_letter c) then underscore_loop hex CHR ''0'' s
      else if c = CHR ''_'' then
        (if i \<noteq> CHR ''0'' then False else underscore_loop hex CHR ''_'' s)
      else if i = CHR ''_'' then False
      else underscore_loop hex CHR ''!'' s)"

definition underscoreOK :: "string \<Rightarrow> bool" where
  "underscoreOK s0 =
     (let s = (if 1 \<le> length s0 \<and> (hd s0 = CHR ''-'' \<or> hd s0 = CHR ''+'') then tl s0 else s0)
      in if 2 \<le> length s \<and> s ! 0 = CHR ''0'' \<and>
            (lower (s ! 1) = of_char CHR ''b'' \<or> lower (s ! 1) = of_char CHR ''o'' \<or>
             lower (s ! 1) = of_char CHR ''x'')
         then underscore_loop (lower (s ! 1) = of_char CHR ''x'') CHR ''0'' (drop 2 s)
         else underscore_loop False CHR ''^'' s)"

record mant_state =
  sawdot :: bool
  sawdigits :: bool
  nd :: nat
  dp :: int
  mantissa :: nat
  underscores :: bool

fun mantissa_loop :: "nat \<Rightarrow> string \<Rightarrow> mant_state \<Rightarrow> mant_state \<times> string" where
  "mantissa_loop base [] st = (st, [])"
| "mantissa_loop base (c # s) st =
     (if c = CHR ''_'' then mantissa_loop base s (st\<lparr>underscores := True\<rparr>)
      else if c = CHR ''.'' then
        (if sawdot st then (st, c # s)
         else mantissa_loop base s (st\<lparr>sawdot := True, dp := int (nd st)\<rparr>))
      else if is_digit c then
        (if c = CHR ''0'' \<and> nd st = 0
         then mantissa_loop base s (st\<lparr>sawdigits := True, dp := dp st - 1\<rparr>)
         else mantissa_loop base s
                (st\<lparr>sawdigits := True, nd := nd st + 1,
                    mantissa := mantissa st * base + (of_char c - 48)\<rparr>))
      else if base = 16 \<and> is_hex_letter c then
        mantissa_loop base s
          (st\<lparr>sawdigits := True, nd := nd st + 1,
              mantissa := mantissa st * 16 + (lower c - 97 + 10)\<rparr>)
      else (st, c # s))"

fun exponent_loop :: "string \<Rightarrow> nat \<Rightarrow> bool \<Rightarrow> nat \<times> bool \<times> string" where
  "exponent_loop [] e us = (e, us, [])"
| "exponent_loop (c # s) e us =
     (if c = CHR ''_'' then exponent_loop s e True
      else if is_digit c
      then exponent_loop s (if e < 10000 then e * 10 + (of_char c - 48) else e) us
      else (e, us, c # s))"

definition readFloat :: "string \<Rightarrow> (bool \<times> bool \<times> nat \<times> int \<times> nat) option" where
  "readFloat s0 =
     (case s0 of
        [] \<Rightarrow> None
      | c0 # _ \<Rightarrow>
          let neg = (c0 = CHR ''-'');
              s1 = (if c0 = CHR ''+'' \<or> c0 = CHR ''-'' then tl s0 else s0);
              hex = (2 < length s1 \<and> s1 ! 0 = CHR ''0'' \<and> lower (s1 ! 1) = of_char CHR ''x'');
              base = (if hex then 16 else 10 :: nat);
              expChar = (if hex then CHR ''p'' else CHR ''e'');
              (st, s3) = mantissa_loop base (if hex then drop 2 s1 else s1)
                 \<lparr>sawdot = False, sawdigits = False, nd = 0, dp = 0, mantissa = 0,
                  underscores = False\<rparr>;
              dp1 = (if \<not> sawdot st then int (nd st) else dp st);
              dp2 = (if hex then dp1 * 4 else dp1);
              ndMant = (if hex then int (nd st) * 4 else int (nd st));
              finish = (\<lambda>dp us rest.
                 let n = length s0 - length rest in
                 if us \<and> \<not> underscoreOK (take n s0) then None
                 else Some (neg, hex, mantissa st,
                            (if mantissa st \<noteq> 0 then dp - ndMant else 0), n))
          in if \<not> sawdigits st then None
             else if s3 \<noteq> [] \<and> lower (hd s3) = of_char expChar then
               (case tl s3 of
                  [] \<Rightarrow> None
                | d # s5 \<Rightarrow>
                    let esign = (if d = CHR ''-'' then - 1 else 1 :: int);
                        s6 = (if d = CHR ''+'' \<or> d = CHR ''-'' then s5 else d # s5)
                    in if s6 = [] \<or> \<not> is_digit (hd s6) then None
                       else (case exponent_loop s6 0 (underscores st) of
                               (e, us, s7) \<Rightarrow> finish (dp2 + int e * esign) us s7))
             else if hex then None
             else finish dp2 (underscores st) s3)"

definition float64_round :: "bool \<Rightarrow> real \<Rightarrow> num_error + float" where
  "float64_round neg v =
     (if 2 ^ 1024 - 2 ^ 970 \<le> v then Inl ErrRange
      else if v \<le> 1 / 2 ^ 1075 then Inr (Fin 0)
      else Inr (Fin (if neg then - v else v)))"

definition scale :: "nat \<Rightarrow> nat \<Rightarrow> int \<Rightarrow> real" where
  "scale m b e = (if 0 \<le> e then real m * real b ^ nat e else real m / real b ^ nat (- e))"

definition ParseFloat :: "string \<Rightarrow> num_error + float" where
  "ParseFloat s =
     (case special s of
        Some (v, n) \<Rightarrow> if n \<noteq> length s then Inl ErrSyntax else Inr v
      | None \<Rightarrow>
          (case readFloat s of
             None \<Rightarrow> Inl ErrSyntax
           | Some (neg, hex, m, e, n) \<Rightarrow>
               if n \<noteq> length s then Inl ErrSyntax
               else float64_round neg (scale m (if hex then 2 else 10) e)))"

section \<open>sql/type.go: ConvertToBool\<close>

datatype convert_error =
    ErrCastNil
  | ErrCast "value"

function ConvertToBool :: "value \<Rightarrow> convert_error + bool" where
  "ConvertToBool (VBool b) = (if b then Inr True else Inr False)"
| "ConvertToBool (VInt b) = ConvertToBool (VInt64 b)"
| "ConvertToBool (VInt64 b) = (if b = 0 then Inr False else Inr True)"
| "ConvertToBool (VInt32 b) = ConvertToBool (VInt64 (scast b))"
| "ConvertToBool (VInt16 b) = ConvertToBool (VInt64 (scast b))"
| "ConvertToBool (VInt8 b) = ConvertToBool (VInt64 (scast b))"
| "ConvertToBool (VUint b) = ConvertToBool (VInt64 b)"
| "ConvertToBool (VUint64 b) = (if b = 0 then Inr False else Inr True)"
| "ConvertToBool (VUint32 b) = ConvertToBool (VUint64 (ucast b))"
| "ConvertToBool (VUint16 b) = ConvertToBool (VUint64 (ucast b))"
| "ConvertToBool (VUint8 b) = ConvertToBool (VUint64 (ucast b))"
| "ConvertToBool (VDuration b) = (if b = 0 then Inr False else Inr True)"
| "ConvertToBool (VTime b) = (if b = 0 then Inr False else Inr True)"
| "ConvertToBool (VFloat32 b) = ConvertToBool (VFloat64 b)"
| "ConvertToBool (VFloat64 b) = (if b = Fin 0 then Inr False else Inr True)"
| "ConvertToBool (VString b) =
     (case ParseFloat b of
        Inl err \<Rightarrow> Inr False
      | Inr bFloat \<Rightarrow> Inr (bFloat \<noteq> Fin 0))"
| "ConvertToBool VNil = Inl ErrCastNil"
| "ConvertToBool (VPoint q) = Inl (ErrCast (VPoint q))"
| "ConvertToBool (VLineString q) = Inl (ErrCast (VLineString q))"
| "ConvertToBool (VPolygon q) = Inl (ErrCast (VPolygon q))"
| "ConvertToBool (VOther q) = Inl (ErrCast (VOther q))"
  by pat_completeness auto
termination
  by (relation "measure (\<lambda>v. case v of VInt64 _ \<Rightarrow> 0 | VUint64 _ \<Rightarrow> 0 | VFloat64 _ \<Rightarrow> 0
                               | _ \<Rightarrow> Suc 0)") auto

section \<open>float64 arithmetic\<close>

text \<open>
  The arithmetic of Go's \<open>float64\<close> is that of IEEE 754 binary64 with rounding to nearest,
  ties to even. \<open>float64_nearest x\<close> is the \<open>float64\<close> that an operation returns when its
  exact result is the real number \<open>x\<close>: around \<open>x\<close> the \<open>float64\<close> values are the multiples of
  \<open>ulp x\<close>, which is \<open>2^(e - 52)\<close> for \<open>2^e \<le> |x| < 2^(e + 1)\<close> and \<open>2^-1074\<close> below
  \<open>2^-1022\<close>; \<open>x\<close> goes to the nearest multiple, to the even one of two equally near, and to
  an infinity when that multiple has left the range below \<open>2^1024\<close>. Every operation is
  rounded on its own: the Go specification also lets a compiler fuse \<open>x*y + z\<close> into one
  rounding, which is not modelled.
\<close>

definition round_half_even :: "real \<Rightarrow> int" where
  "round_half_even y =
     (let n = \<lfloor>y\<rfloor>; r = y - of_int n
      in if r < 1 / 2 then n else if 1 / 2 < r then n + 1 else if even n then n else n + 1)"

definition ulp :: "real \<Rightarrow> real" where
  "ulp x = 2 powi (max \<lfloor>log 2 \<bar>x\<bar>\<rfloor> (- 1022) - 52)"

definition float64_nearest :: "real \<Rightarrow> float" where
  "float64_nearest x =
     (if x = 0 then Fin 0
      else let y = of_int (round_half_even (x / ulp x)) * ulp x
           in if 2 ^ 1024 \<le> \<bar>y\<bar> then Inf (x < 0) else Fin y)"

text \<open>
  The operators that \<open>ST_AREA\<close> applies to \<open>float64\<close> values: unary \<open>-\<close>, \<open>*\<close>, \<open>+\<close>, binary
  \<open>-\<close>, the test \<open>< 0\<close> and the division \<open>/ 2\<close>. An infinity times zero and the sum of
  the two infinities are NaN, NaN makes every result NaN, and no comparison with NaN holds.
\<close>

fun float64_neg :: "float \<Rightarrow> float" where
  "float64_neg (Fin x) = Fin (- x)"
| "float64_neg (Inf s) = Inf (\<not> s)"
| "float64_neg NaN = NaN"

fun float64_mul :: "float \<Rightarrow> float \<Rightarrow> float" where
  "float64_mul (Fin x) (Fin y) = float64_nearest (x * y)"
| "float64_mul (Fin x) (Inf t) = (if x = 0 then NaN else Inf (t \<noteq> (x < 0)))"
| "float64_mul (Inf s) (Fin y) = (if y = 0 then NaN else Inf (s \<noteq> (y < 0)))"
| "float64_mul (Inf s) (Inf t) = Inf (s \<noteq> t)"
| "float64_mul NaN b = NaN"
| "float64_mul a NaN = NaN"

fun float64_add :: "float \<Rightarrow> float \<Rightarrow> float" where
  "float64_add (Fin x) (Fin y) = float64_nearest (x + y)"
| "float64_add (Fin x) (Inf t) = Inf t"
| "float64_add (Inf s) (Fin y) = Inf s"
| "float64_add (Inf s) (Inf t) = (if s = t then Inf s else NaN)"
| "float64_add NaN b = NaN"
| "float64_add a NaN = NaN"

definition float64_sub :: "float \<Rightarrow> float \<Rightarrow> float" where
  "float64_sub a b = float64_add a (float64_neg b)"

fun float64_less_zero :: "float \<Rightarrow> bool" where
  "float64_less_zero (Fin x) = (x < 0)"
| "float64_less_zero (Inf s) = s"
| "float64_less_zero NaN = False"

fun float64_half :: "float \<Rightarrow> float" where
  "float64_half (Fin x) = float64_nearest (x / 2)"
| "float64_half (Inf s) = Inf s"
| "float64_half NaN = NaN"

section \<open>ST_AREA\<close>

datatype eval_error =
    ErrInvalidAreaArgument "value"
  | ChildError string

text \<open>The loop of \<open>calculateArea\<close>: \<open>i\<close> runs while a point \<open>i + 1\<close> exists.\<close>

fun shoelace_loop :: "Point list \<Rightarrow> float \<Rightarrow> float" where
  "shoelace_loop (p1 # p2 # ps) area =
     shoelace_loop (p2 # ps)
       (float64_add area
          (float64_sub (float64_mul (X p1) (Y p2)) (float64_mul (Y p1) (X p2))))"
| "shoelace_loop ps area = area"

definition calculateArea :: "LineString \<Rightarrow> float" where
  "calculateArea l =
     (let area = shoelace_loop (Points l) (Fin 0);
          area = (if float64_less_zero area then float64_neg area else area)
      in float64_half area)"

text \<open>The loop of \<open>Area.Eval\<close> over \<open>p.Lines\<close>, with its index \<open>i\<close>.\<close>

fun total_area_loop :: "nat \<Rightarrow> LineString list \<Rightarrow> float \<Rightarrow> float" where
  "total_area_loop i [] totalArea = totalArea"
| "total_area_loop i (l # ls) totalArea =
     (let area = calculateArea l;
          area = (if i \<noteq> 0 then float64_neg area else area)
      in total_area_loop (i + 1) ls (float64_add totalArea area))"

text \<open>
  \<open>Area.Eval\<close>, as a function of what evaluating the child expression gave: an error, or
  a value.
\<close>

definition Area_Eval :: "eval_error + value \<Rightarrow> eval_error + value" where
  "Area_Eval child =
     (case child of
        Inl err \<Rightarrow> Inl err
      | Inr v \<Rightarrow>
          (case v of
             VNil \<Rightarrow> Inr VNil
           | VPolygon p \<Rightarrow> Inr (VFloat64 (total_area_loop 0 (Lines p) (Fin 0)))
           | _ \<Rightarrow> Inl (ErrInvalidAreaArgument v)))"

subsection \<open>The area as the claim words it\<close>

text \<open>
  Over the real numbers: a ring's area is half the absolute value of its shoelace sum, and
  a polygon's area is the area of its first ring minus the areas of the others.
  \<open>coordinate\<close> is the number that a finite coordinate stands for.
\<close>

fun coordinate :: "float \<Rightarrow> real" where
  "coordinate (Fin x) = x"
| "coordinate (Inf s) = 0"
| "coordinate NaN = 0"

definition shoelace_sum :: "Point list \<Rightarrow> real" where
  "shoelace_sum ps =
     (\<Sum>i < length ps - 1.
        coordinate (X (ps ! i)) * coordinate (Y (ps ! (i + 1)))
        - coordinate (Y (ps ! i)) * coordinate (X (ps ! (i + 1))))"

definition ring_area :: "LineString \<Rightarrow> real" where
  "ring_area l = \<bar>shoelace_sum (Points l)\<bar> / 2"

definition polygon_area :: "Polygon \<Rightarrow> real" where
  "polygon_area p =
     (case Lines p of
        [] \<Rightarrow> 0
      | outer # holes \<Rightarrow> ring_area outer - sum_list (map ring_area holes))"

text \<open>
  The same in \<open>float64\<close> arithmetic, where the order of the operations counts: the shoelace
  sum adds the terms to 0 from the first pair of points on, and the area of a polygon adds
  the area of the first ring to 0 and then subtracts the areas of the other rings one by
  one. \<open>float64_nonneg\<close> is \<open>0 \<le> a\<close>, which holds of no NaN.
\<close>

fun float64_abs :: "float \<Rightarrow> float" where
  "float64_abs (Fin x) = Fin \<bar>x\<bar>"
| "float64_abs (Inf s) = Inf False"
| "float64_abs NaN = NaN"

fun float64_nonneg :: "float \<Rightarrow> bool" where
  "float64_nonneg (Fin x) = (0 \<le> x)"
| "float64_nonneg (Inf s) = (\<not> s)"
| "float64_nonneg NaN = False"

definition float64_shoelace_sum :: "Point list \<Rightarrow> float" where
  "float64_shoelace_sum ps =
     foldl float64_add (Fin 0)
       (map (\<lambda>(p1, p2). float64_sub (float64_mul (X p1) (Y p2)) (float64_mul (Y p1) (X p2)))
          (zip ps (tl ps)))"

definition float64_ring_area :: "LineString \<Rightarrow> float" where
  "float64_ring_area l = float64_half (float64_abs (float64_shoelace_sum (Points l)))"

definition float64_polygon_area :: "Polygon \<Rightarrow> float" where
  "float64_polygon_area p =
     (case Lines p of
        [] \<Rightarrow> Fin 0
      | outer # holes \<Rightarrow>
          foldl (\<lambda>total hole. float64_sub total (float64_ring_area hole))
            (float64_add (Fin 0) (float64_ring_area outer)) holes)"

text \<open>
  Polygons on which no operation rounds: every coordinate is an integer of magnitude at
  most \<open>B\<close>, and \<open>2 * B * B\<close> times the number of points of the polygon stays below \<open>2^52\<close>.
\<close>

definition int_coordinate :: "nat \<Rightarrow> float \<Rightarrow> bool" where
  "int_coordinate B c = (case c of Fin x \<Rightarrow> x \<in> \<int> \<and> \<bar>x\<bar> \<le> real B | _ \<Rightarrow> False)"

definition int_points :: "nat \<Rightarrow> Polygon \<Rightarrow> bool" where
  "int_points B p \<longleftrightarrow>
     (\<forall>l \<in> set (Lines p). \<forall>q \<in> set (Points l).
        int_coordinate B (X q) \<and> int_coordinate B (Y q))"

definition point_count :: "Polygon \<Rightarrow> nat" where
  "point_count p = sum_list (map (\<lambda>l. length (Points l)) (Lines p))"

subsection \<open>Two polygons for the examples\<close>

text \<open>
  The square with corners \<open>(2^600, 2^600)\<close> and \<open>(2^601, 2^601)\<close>, whose coordinates are
  \<open>float64\<close> values, and the square with corners \<open>(0, 0)\<close> and \<open>(4, 4)\<close> with a unit square
  hole.
\<close>

abbreviation far_ring :: LineString where
  "far_ring \<equiv> \<lparr>Points =
     [\<lparr>X = Fin (2 ^ 600), Y = Fin (2 ^ 600)\<rparr>, \<lparr>X = Fin (2 * 2 ^ 600), Y = Fin (2 ^ 600)\<rparr>,
      \<lparr>X = Fin (2 * 2 ^ 600), Y = Fin (2 * 2 ^ 600)\<rparr>, \<lparr>X = Fin (2 ^ 600), Y = Fin (2 * 2 ^ 600)\<rparr>,
      \<lparr>X = Fin (2 ^ 600), Y = Fin (2 ^ 600)\<rparr>]\<rparr>"

abbreviation square_with_hole :: Polygon where
  "square_with_hole \<equiv> \<lparr>Lines =
      [\<lparr>Points = [\<lparr>X = Fin 0, Y = Fin 0\<rparr>, \<lparr>X = Fin 4, Y = Fin 0\<rparr>, \<lparr>X = Fin 4, Y = Fin 4\<rparr>,
                  \<lparr>X = Fin 0, Y = Fin 4\<rparr>, \<lparr>X = Fin 0, Y = Fin 0\<rparr>]\<rparr>,
       \<lparr>Points = [\<lparr>X = Fin 1, Y = Fin 1\<rparr>, \<lparr>X = Fin 1, Y = Fin 2\<rparr>, \<lparr>X = Fin 2, Y = Fin 2\<rparr>,
                  \<lparr>X = Fin 2, Y = Fin 1\<rparr>, \<lparr>X = Fin 1, Y = Fin 1\<rparr>]\<rparr>]\<rparr>"

section \<open>analyzer: the rows of an INSERT\<close>

text \<open>
  Expressions, as far as the analyzer rules for INSERT tell them apart: a field of the
  input row (index, type, name, nullable), a literal, an auto-increment generator around an
  expression, a column default value, and any other expression.
\<close>

datatype expression =
    EGetField nat Type string bool
  | ELiteral string
  | EAutoIncrement expression
  | EColumnDefaultValue expression
  | EOther string

text \<open>
  \<open>sql.Column\<close>: \<open>Default\<close> and \<open>Generated\<close> are pointers in the source, \<open>None\<close> is \<open>nil\<close>.
\<close>

record Column =
  Name :: string
  Type :: Type
  Nullable :: bool
  Default :: "expression option"
  AutoIncrement :: bool
  Generated :: "expression option"

text \<open>
  Plan nodes, as \<open>validateValueCount\<close> and \<open>validateRowSource\<close> tell them apart: a VALUES
  list with its expression tuples, LOAD DATA with its column names, an exchange around a
  child, a projection, and any other node (the parser leaves some form of SELECT there). The
  method \<open>Schema()\<close> of a node is declared with the nodes, outside these sources: the
  functions below take it as the parameter \<open>Schema\<close>.
\<close>

datatype node =
    Values "expression list list"
  | LoadData "string list"
  | Exchange node
  | Project "expression list" node
  | OtherNode string

datatype analysis_error =
    ErrInsertIntoNonNullableDefaultNullColumn string
  | ErrGeneratedColumnValue string string
  | ErrInsertIntoNonexistentColumn string
  | ErrInsertIntoDuplicateColumn string
  | ErrInsertIntoMismatchValueCount
  | ErrInsertIntoIncompatibleTypes Type Type
  | ErrInsertIntoUnsupportedValues expression
  | PanicIndexOutOfRange
  | HelperError string

text \<open>
  \<open>strings.ToLower\<close> and \<open>strings.EqualFold\<close> belong to the Go standard library and fold
  the case of Unicode text. The functions below that call them take them as the parameters
  \<open>ToLower\<close> and \<open>EqualFold\<close>, and nothing is assumed of the two. On names written in ASCII
  letters, digits and underscores the library functions compute \<open>ascii_ToLower\<close> and
  \<open>ascii_EqualFold\<close>: the letters \<open>A\<close> to \<open>Z\<close> map to \<open>a\<close> to \<open>z\<close>, every other character
  stays. The examples, whose names are all of this kind, use these two.
\<close>

definition ascii_lower_char :: "char \<Rightarrow> char" where
  "ascii_lower_char c =
     (case map_of (zip ''ABCDEFGHIJKLMNOPQRSTUVWXYZ'' ''abcdefghijklmnopqrstuvwxyz'') c of
        Some l \<Rightarrow> l
      | None \<Rightarrow> c)"

definition ascii_ToLower :: "string \<Rightarrow> string" where
  "ascii_ToLower s = map ascii_lower_char s"

definition ascii_EqualFold :: "string \<Rightarrow> string \<Rightarrow> bool" where
  "ascii_EqualFold s t \<longleftrightarrow> ascii_ToLower s = ascii_ToLower t"

subsection \<open>validateValueCount\<close>

fun values_loop :: "nat \<Rightarrow> expression list list \<Rightarrow> analysis_error option" where
  "values_loop n [] = None"
| "values_loop n (exprTuple # rest) =
     (if length exprTuple \<noteq> n then Some ErrInsertIntoMismatchValueCount
      else values_loop n rest)"

definition unwrap_exchange :: "node \<Rightarrow> node" where
  "unwrap_exchange values = (case values of Exchange child \<Rightarrow> child | _ \<Rightarrow> values)"

definition validateValueCount ::
  "(node \<Rightarrow> Column list) \<Rightarrow> string list \<Rightarrow> node \<Rightarrow> analysis_error option" where
  "validateValueCount Schema columnNames values0 =
     (let values = unwrap_exchange values0 in
      case values of
        Values tuples \<Rightarrow> values_loop (length columnNames) tuples
      | LoadData names \<Rightarrow>
          (let dataColLen = length names;
               dataColLen = (if dataColLen = 0 then length (Schema values) else dataColLen)
           in if length columnNames \<noteq> dataColLen then Some ErrInsertIntoMismatchValueCount
              else None)
      | _ \<Rightarrow>
          if length columnNames \<noteq> length (Schema values)
          then Some ErrInsertIntoMismatchValueCount
          else None)"

text \<open>
  The claim's description of a source whose row width does not fit the column list: some
  VALUES tuple of another length, a LOAD DATA column count that differs (its column names,
  or its schema when it names none), or another source whose schema width differs. An
  exchange around the source is looked through.
\<close>

definition width_mismatch :: "(node \<Rightarrow> Column list) \<Rightarrow> string list \<Rightarrow> node \<Rightarrow> bool" where
  "width_mismatch Schema columnNames source0 =
     (let source = unwrap_exchange source0 in
      case source of
        Values tuples \<Rightarrow> (\<exists>t \<in> set tuples. length t \<noteq> length columnNames)
      | LoadData names \<Rightarrow>
          (if names = [] then length (Schema source) else length names) \<noteq> length columnNames
      | _ \<Rightarrow> length (Schema source) \<noteq> length columnNames)"

subsection \<open>validateColumns\<close>

fun validateColumns_loop ::
  "(string \<rightharpoonup> Column) \<Rightarrow> string \<Rightarrow> string list \<Rightarrow> string set \<Rightarrow> analysis_error option" where
  "validateColumns_loop dstColNames tableName [] usedNames = None"
| "validateColumns_loop dstColNames tableName (columnName # rest) usedNames =
     (case dstColNames columnName of
        None \<Rightarrow> Some (ErrInsertIntoNonexistentColumn columnName)
      | Some dstCol \<Rightarrow>
          if Generated dstCol \<noteq> None
          then Some (ErrGeneratedColumnValue (Name dstCol) tableName)
          else if columnName \<notin> usedNames
          then validateColumns_loop dstColNames tableName rest (insert columnName usedNames)
          else Some (ErrInsertIntoDuplicateColumn columnName))"

definition dstColNames_of :: "(string \<Rightarrow> string) \<Rightarrow> Column list \<Rightarrow> (string \<rightharpoonup> Column)" where
  "dstColNames_of ToLower dstSchema =
     fold (\<lambda>dstCol m. m(ToLower (Name dstCol) \<mapsto> dstCol)) dstSchema Map.empty"

definition validateColumns ::
  "(string \<Rightarrow> string) \<Rightarrow> string \<Rightarrow> string list \<Rightarrow> Column list \<Rightarrow> analysis_error option" where
  "validateColumns ToLower tableName columnNames dstSchema =
     validateColumns_loop (dstColNames_of ToLower dstSchema) tableName columnNames {}"

subsection \<open>validateRowSource\<close>

text \<open>
  What \<open>assertCompatibleSchemas\<close> asks of the type system, which is outside these sources:
  whether a type is \<open>types.Null\<close>, whether \<open>exprType.Convert(otherType.Zero())\<close> succeeds,
  whether a type is an \<open>EnumType\<close>, and \<open>types.IsText\<close>.
\<close>

record type_ops =
  isNull :: "Type \<Rightarrow> bool"
  convertsZero :: "Type \<Rightarrow> Type \<Rightarrow> bool"
  isEnumType :: "Type \<Rightarrow> bool"
  IsText :: "Type \<Rightarrow> bool"

fun assertCompatibleSchemas ::
  "type_ops \<Rightarrow> expression list \<Rightarrow> Column list \<Rightarrow> analysis_error option" where
  "assertCompatibleSchemas ops [] schema = None"
| "assertCompatibleSchemas ops (expr # rest) schema =
     (case expr of
        ELiteral _ \<Rightarrow> assertCompatibleSchemas ops rest schema
      | EAutoIncrement _ \<Rightarrow> assertCompatibleSchemas ops rest schema
      | EColumnDefaultValue _ \<Rightarrow> assertCompatibleSchemas ops rest schema
      | EGetField idx exprType _ _ \<Rightarrow>
          if length schema \<le> idx then Some PanicIndexOutOfRange
          else let otherCol = schema ! idx in
            if isNull ops (Type otherCol) then assertCompatibleSchemas ops rest schema
            else if convertsZero ops exprType (Type otherCol)
            then assertCompatibleSchemas ops rest schema
            else if isEnumType ops exprType \<and> IsText ops (Type otherCol)
            then assertCompatibleSchemas ops rest schema
            else Some (ErrInsertIntoIncompatibleTypes (Type otherCol) exprType)
      | EOther _ \<Rightarrow> Some (ErrInsertIntoUnsupportedValues expr))"

definition validateRowSource ::
  "type_ops \<Rightarrow> (node \<Rightarrow> Column list) \<Rightarrow> node \<Rightarrow> expression list \<Rightarrow> analysis_error option" where
  "validateRowSource ops Schema values0 projExprs =
     (let values = unwrap_exchange values0 in
      case values of
        Values _ \<Rightarrow> None
      | LoadData _ \<Rightarrow> None
      | _ \<Rightarrow> assertCompatibleSchemas ops projExprs (Schema values))"

subsection \<open>wrapRowSource\<close>

text \<open>
  Modelled from the spec: \<open>expression.NewAutoIncrement\<close> is outside these sources. The spec
  has auto-increment columns wrapped in an increment generator; the call in
  \<open>wrapRowSource\<close> shows that it can return an error instead, which is the parameter
  \<open>failure\<close>: the error it returns for the destination table, if it returns one.
\<close>

definition NewAutoIncrement ::
  "analysis_error option \<Rightarrow> expression \<Rightarrow> analysis_error + expression" where
  "NewAutoIncrement failure given =
     (case failure of Some err \<Rightarrow> Inl err | None \<Rightarrow> Inr (EAutoIncrement given))"

text \<open>The inner loop of \<open>wrapRowSource\<close>: the first \<open>j\<close> whose name matches, from \<open>j\<close> on.\<close>

fun find_column ::
  "(string \<Rightarrow> string \<Rightarrow> bool) \<Rightarrow> nat \<Rightarrow> string \<Rightarrow> string list \<Rightarrow> nat option" where
  "find_column EqualFold j name [] = None"
| "find_column EqualFold j name (col # rest) =
     (if EqualFold name col then Some j else find_column EqualFold (j + 1) name rest)"

text \<open>
  The body of the outer loop, for the schema column \<open>f\<close>. \<open>fixDefault\<close> is
  \<open>transform.Expr(f.Default, ...)\<close> with \<open>fixidx.FixFieldIndexes\<close> on the column references
  of the default, both outside these sources: it is given the default (\<open>None\<close> for \<open>nil\<close>)
  and returns the rewritten default or an error.
\<close>

definition projExpr ::
  "(string \<Rightarrow> string \<Rightarrow> bool) \<Rightarrow>
   (expression option \<Rightarrow> analysis_error + expression) \<Rightarrow> analysis_error option \<Rightarrow>
   string list \<Rightarrow> Column \<Rightarrow> analysis_error + expression" where
  "projExpr EqualFold fixDefault aiFailure columnNames f =
     (case (case find_column EqualFold 0 (Name f) columnNames of
              Some j \<Rightarrow> Inr (EGetField j (Type f) (Name f) (Nullable f))
            | None \<Rightarrow>
                if \<not> Nullable f \<and> Default f = None \<and> \<not> AutoIncrement f
                then Inl (ErrInsertIntoNonNullableDefaultNullColumn (Name f))
                else fixDefault (Default f)) of
        Inl err \<Rightarrow> Inl err
      | Inr e \<Rightarrow> if AutoIncrement f then NewAutoIncrement aiFailure e else Inr e)"

fun projExprs_loop ::
  "(string \<Rightarrow> string \<Rightarrow> bool) \<Rightarrow>
   (expression option \<Rightarrow> analysis_error + expression) \<Rightarrow> analysis_error option \<Rightarrow>
   string list \<Rightarrow> Column list \<Rightarrow> analysis_error + expression list" where
  "projExprs_loop EqualFold fixDefault aiFailure columnNames [] = Inr []"
| "projExprs_loop EqualFold fixDefault aiFailure columnNames (f # schema) =
     (case projExpr EqualFold fixDefault aiFailure columnNames f of
        Inl err \<Rightarrow> Inl err
      | Inr e \<Rightarrow>
          (case projExprs_loop EqualFold fixDefault aiFailure columnNames schema of
             Inl err \<Rightarrow> Inl err
           | Inr es \<Rightarrow> Inr (e # es)))"

definition wrapRowSource ::
  "(string \<Rightarrow> string \<Rightarrow> bool) \<Rightarrow> type_ops \<Rightarrow> (node \<Rightarrow> Column list) \<Rightarrow>
   (expression option \<Rightarrow> analysis_error + expression) \<Rightarrow> analysis_error option \<Rightarrow>
   node \<Rightarrow> Column list \<Rightarrow> string list \<Rightarrow> analysis_error + node" where
  "wrapRowSource EqualFold ops Schema fixDefault aiFailure insertSource schema columnNames =
     (case projExprs_loop EqualFold fixDefault aiFailure columnNames schema of
        Inl err \<Rightarrow> Inl err
      | Inr projExprs \<Rightarrow>
          (case validateRowSource ops Schema insertSource projExprs of
             Some err \<Rightarrow> Inl err
           | None \<Rightarrow> Inr (Project projExprs insertSource)))"

text \<open>A schema column that the column list leaves out.\<close>

definition omitted :: "(string \<Rightarrow> string \<Rightarrow> bool) \<Rightarrow> string list \<Rightarrow> Column \<Rightarrow> bool" where
  "omitted EqualFold columnNames f \<longleftrightarrow> (\<forall>col \<in> set columnNames. \<not> EqualFold (Name f) col)"

subsection \<open>resolveInsertRows\<close>

fun existsNonZeroValueCount :: "node \<Rightarrow> bool" where
  "existsNonZeroValueCount (Values tuples) = list_ex (\<lambda>exprTuple. length exprTuple \<noteq> 0) tuples"
| "existsNonZeroValueCount (LoadData names) = True"
| "existsNonZeroValueCount (Exchange child) = True"
| "existsNonZeroValueCount (Project exprs child) = True"
| "existsNonZeroValueCount (OtherNode other) = True"

text \<open>
  \<open>resolveInsertRows\<close> on an \<open>InsertInto\<close> node, from \<open>dstSchema := insertable.Schema()\<close>
  on: the table has been found and is insertable, the checks of REPLACE and of ON DUPLICATE
  KEY UPDATE have passed and the source has been analyzed, each through a helper that is
  outside these sources. \<open>ColumnNames\<close> is the column list of the statement, \<open>source\<close> the analyzed
  source, \<open>dstSchema\<close> the schema of the table (\<open>insertable.Schema()\<close>), \<open>destSchema\<close> the
  schema of the destination node (\<open>insert.Destination.Schema()\<close>) and \<open>tableName\<close> the name
  of the table. The result is the error of the analysis, or the projection that becomes
  the source of the insert.
\<close>

definition resolveInsertRows ::
  "(string \<Rightarrow> string) \<Rightarrow> (string \<Rightarrow> string \<Rightarrow> bool) \<Rightarrow> type_ops \<Rightarrow> (node \<Rightarrow> Column list) \<Rightarrow>
   (expression option \<Rightarrow> analysis_error + expression) \<Rightarrow> analysis_error option \<Rightarrow>
   string \<Rightarrow> Column list \<Rightarrow> Column list \<Rightarrow> string list \<Rightarrow> node \<Rightarrow> analysis_error + node" where
  "resolveInsertRows ToLower EqualFold ops Schema fixDefault aiFailure
       tableName dstSchema destSchema ColumnNames source =
     (let columnNames = map ToLower ColumnNames in
      case (if length columnNames = 0 \<and> existsNonZeroValueCount source
            then Inr (map Name dstSchema)
            else (case validateColumns ToLower tableName columnNames dstSchema of
                    Some err \<Rightarrow> Inl err
                  | None \<Rightarrow> Inr columnNames)) of
        Inl err \<Rightarrow> Inl err
      | Inr columnNames \<Rightarrow>
          (case validateValueCount Schema columnNames source of
             Some err \<Rightarrow> Inl err
           | None \<Rightarrow>
               wrapRowSource EqualFold ops Schema fixDefault aiFailure source destSchema
                 columnNames))"

subsection \<open>A destination table for the examples\<close>

text \<open>
  \<open>t(id bigint NOT NULL AUTO_INCREMENT, name text NOT NULL, note text DEFAULT 'n/a',
  total bigint GENERATED)\<close>, type operations under which every conversion succeeds, and a
  default rewriting that leaves a default as it is.
\<close>

abbreviation col_id :: Column where
  "col_id \<equiv> \<lparr>Name = ''id'', Type = BaseType ''bigint'', Nullable = False, Default = None,
     AutoIncrement = True, Generated = None\<rparr>"

abbreviation col_name :: Column where
  "col_name \<equiv> \<lparr>Name = ''name'', Type = BaseType ''text'', Nullable = False, Default = None,
     AutoIncrement = False, Generated = None\<rparr>"

abbreviation col_note :: Column where
  "col_note \<equiv> \<lparr>Name = ''note'', Type = BaseType ''text'', Nullable = True,
     Default = Some (EColumnDefaultValue (ELiteral ''n/a'')),
     AutoIncrement = False, Generated = None\<rparr>"

abbreviation col_total :: Column where
  "col_total \<equiv> \<lparr>Name = ''total'', Type = BaseType ''bigint'', Nullable = True, Default = None,
     AutoIncrement = False, Generated = Some (EOther ''id + 1'')\<rparr>"

abbreviation lenient_ops :: type_ops where
  "lenient_ops \<equiv> \<lparr>isNull = (\<lambda>t. False), convertsZero = (\<lambda>t u. True),
     isEnumType = (\<lambda>t. False), IsText = (\<lambda>t. False)\<rparr>"

abbreviation keep_default :: "expression option \<Rightarrow> analysis_error + expression" where
  "keep_default \<equiv> (\<lambda>d. case d of None \<Rightarrow> Inr (EColumnDefaultValue (ELiteral ''NULL''))
                                | Some e \<Rightarrow> Inr e)"

section \<open>JSON documents\<close>

text \<open>
  The JSON type's own code (comparison, printing, path mutation) is outside these sources:
  \<open>sql/types/json_test.go\<close> calls it. A JSON value is null, a boolean, a number (of a
  type \<open>'n\<close>: the engine's are doubles), a string, an array, or an object. An object is a
  Go map; it is carried as the list of its entries in ascending key order.
\<close>

datatype 'n json =
    JNull
  | JBool bool
  | JNumber 'n
  | JString string
  | JArray "'n json list"
  | JObject "(string \<times> 'n json) list"

subsection \<open>Comparison\<close>

text \<open>
  Modelled from the spec: the JSON comparison function is missing from the sources. The
  spec gives a total order by the type-precedence list BOOLEAN, ARRAY, OBJECT, STRING,
  DOUBLE, NULL (highest first) with recursive element comparison. Within a class,
  following the cases of \<open>TestJsonCompare\<close>: \<open>false\<close> is below \<open>true\<close>, numbers and strings
  have their own order, arrays are compared element by element with the shorter one first
  when it is a prefix of the other, and objects are compared entry by entry in key order
  (the key first, then the value) in the same way.
\<close>

fun json_precedence :: "'n json \<Rightarrow> nat" where
  "json_precedence (JBool _) = 5"
| "json_precedence (JArray _) = 4"
| "json_precedence (JObject _) = 3"
| "json_precedence (JString _) = 2"
| "json_precedence (JNumber _) = 1"
| "json_precedence JNull = 0"

definition compare_values :: "'a::linorder \<Rightarrow> 'a \<Rightarrow> int" where
  "compare_values x y = (if x < y then - 1 else if x = y then 0 else 1)"

fun compareJSON :: "'n::linorder json \<Rightarrow> 'n json \<Rightarrow> int"
  and compareJSONArray :: "'n json list \<Rightarrow> 'n json list \<Rightarrow> int"
  and compareJSONObject :: "(string \<times> 'n json) list \<Rightarrow> (string \<times> 'n json) list \<Rightarrow> int" where
  "compareJSON JNull JNull = 0"
| "compareJSON (JBool x) (JBool y) = compare_values x y"
| "compareJSON (JNumber x) (JNumber y) = compare_values x y"
| "compareJSON (JString x) (JString y) = compare_values x y"
| "compareJSON (JArray xs) (JArray ys) = compareJSONArray xs ys"
| "compareJSON (JObject xs) (JObject ys) = compareJSONObject xs ys"
| "compareJSON a b = (if json_precedence b < json_precedence a then 1 else - 1)"
| "compareJSONArray [] [] = 0"
| "compareJSONArray [] (y # ys) = - 1"
| "compareJSONArray (x # xs) [] = 1"
| "compareJSONArray (x # xs) (y # ys) =
     (let c = compareJSON x y in if c \<noteq> 0 then c else compareJSONArray xs ys)"
| "compareJSONObject [] [] = 0"
| "compareJSONObject [] (y # ys) = - 1"
| "compareJSONObject (x # xs) [] = 1"
| "compareJSONObject ((k, v) # xs) ((l, w) # ys) =
     (let c = compare_values k l in
      if c \<noteq> 0 then c
      else let c = compareJSON v w in if c \<noteq> 0 then c else compareJSONObject xs ys)"

subsection \<open>Mutation by path\<close>

text \<open>
  Modelled from the spec: the methods \<open>Set\<close>, \<open>Insert\<close> and \<open>Replace\<close> of a JSON document
  are missing from the sources. The spec has a mutation return \<open>(new_doc, changed_flag)\<close>,
  with \<open>JSON_SET('{"a":1}','$.b',42)\<close> giving \<open>{"a":1,"b":42}\<close> and
  \<open>JSON_INSERT('{"a":1}','$.a',42)\<close> and \<open>JSON_REPLACE('{"a":1}','$.b',42)\<close> leaving
  \<open>{"a":1}\<close> as it is. A path is \<open>$\<close> followed by steps; the model has the field steps
  \<open>.name\<close>, so a path is the list of its field names and \<open>$\<close> is the empty list. The array
  steps \<open>[n]\<close>, \<open>[last]\<close> and \<open>[last-n]\<close> are not modelled. Following the cases of
  \<open>TestJsonSet\<close>, \<open>TestJsonInsert\<close> and \<open>TestJsonReplace\<close>: at the root, Set and Replace
  give the new value and Insert changes nothing; a field step into a value that is not an
  object, or through a field that is absent, changes nothing.
\<close>

datatype mutation_mode = SET | INSERT | REPLACE

text \<open>Binding a key in an object, which keeps the entries in key order.\<close>

fun obj_put :: "string \<Rightarrow> 'n json \<Rightarrow> (string \<times> 'n json) list \<Rightarrow> (string \<times> 'n json) list" where
  "obj_put k v [] = [(k, v)]"
| "obj_put k v ((l, w) # rest) =
     (if k < l then (k, v) # (l, w) # rest
      else if k = l then (k, v) # rest
      else (l, w) # obj_put k v rest)"

fun setValue :: "mutation_mode \<Rightarrow> 'n json \<Rightarrow> string list \<Rightarrow> 'n json \<Rightarrow> 'n json \<times> bool" where
  "setValue mode doc [] val = (if mode = INSERT then (doc, False) else (val, True))"
| "setValue mode (JObject kvs) [name] val =
     (let present = (map_of kvs name \<noteq> None) in
      if (mode = INSERT \<and> present) \<or> (mode = REPLACE \<and> \<not> present) then (JObject kvs, False)
      else (JObject (obj_put name val kvs), True))"
| "setValue mode (JObject kvs) (name # rest) val =
     (case map_of kvs name of
        None \<Rightarrow> (JObject kvs, False)
      | Some child \<Rightarrow>
          (case setValue mode child rest val of
             (child', changed) \<Rightarrow>
               if changed then (JObject (obj_put name child' kvs), True)
               else (JObject kvs, False)))"
| "setValue mode doc (name # rest) val = (doc, False)"

definition JSONDocument_Set :: "'n json \<Rightarrow> string list \<Rightarrow> 'n json \<Rightarrow> 'n json \<times> bool" where
  "JSONDocument_Set doc path val = setValue SET doc path val"

definition JSONDocument_Insert :: "'n json \<Rightarrow> string list \<Rightarrow> 'n json \<Rightarrow> 'n json \<times> bool" where
  "JSONDocument_Insert doc path val = setValue INSERT doc path val"

definition JSONDocument_Replace :: "'n json \<Rightarrow> string list \<Rightarrow> 'n json \<Rightarrow> 'n json \<times> bool" where
  "JSONDocument_Replace doc path val = setValue REPLACE doc path val"

section \<open>Query execution\<close>

text \<open>
  Modelled from the spec: the executor is missing from the sources, which hold the table of
  query tests. The operators that the correlated-subquery scenario needs are modelled from
  the spec's contracts. A comparison with a NULL operand is NULL. A column reference is a
  field index into a row of the scope, the stack of the current operator's input row and
  the enclosing operators' input rows (\<open>QField depth i\<close>, depth 0 being the current row). A
  scalar subquery is run once for every outer row, with that row pushed on the scope, and
  is NULL when it returns no row. Filter drops the rows whose predicate is not true;
  Project evaluates its expressions once per input row; MAX without grouping columns
  returns one row, NULL over no input; Sort is stable and puts NULL first. The plan of a
  query is written out by hand: parsing and analysis are not modelled.
\<close>

datatype sqlval = Null | IntV int | BoolV bool

type_synonym row = "sqlval list"

datatype qexpr =
    QLiteral sqlval
  | QField nat nat
  | QLessThan qexpr qexpr
  | QSubquery qplan
and qplan =
    QTable string
  | QFilter qexpr qplan
  | QProject "qexpr list" qplan
  | QMax qexpr qplan
  | QSort nat qplan

datatype exec_error = ErrIndex | ErrOperand | ErrSubqueryRows

definition less_than :: "sqlval \<Rightarrow> sqlval \<Rightarrow> exec_error + sqlval" where
  "less_than x y =
     (case (x, y) of
        (Null, _) \<Rightarrow> Inr Null
      | (_, Null) \<Rightarrow> Inr Null
      | (IntV m, IntV n) \<Rightarrow> Inr (BoolV (m < n))
      | _ \<Rightarrow> Inl ErrOperand)"

fun max_step :: "sqlval \<Rightarrow> sqlval \<Rightarrow> sqlval" where
  "max_step acc Null = acc"
| "max_step Null v = v"
| "max_step (IntV m) (IntV n) = IntV (max m n)"
| "max_step acc v = acc"

definition max_agg :: "sqlval list \<Rightarrow> sqlval" where
  "max_agg vs = foldl max_step Null vs"

fun sql_le :: "sqlval \<Rightarrow> sqlval \<Rightarrow> bool" where
  "sql_le Null _ = True"
| "sql_le _ Null = False"
| "sql_le (IntV m) (IntV n) = (m \<le> n)"
| "sql_le (BoolV a) (BoolV b) = (a \<le> b)"
| "sql_le (BoolV _) (IntV _) = True"
| "sql_le (IntV _) (BoolV _) = False"

fun insert_row :: "nat \<Rightarrow> row \<Rightarrow> row list \<Rightarrow> row list" where
  "insert_row i r [] = [r]"
| "insert_row i r (s # rest) =
     (if sql_le (s ! i) (r ! i) then s # insert_row i r rest else r # s # rest)"

definition sort_rows :: "nat \<Rightarrow> row list \<Rightarrow> row list" where
  "sort_rows i rows = foldl (\<lambda>sorted r. insert_row i r sorted) [] rows"

fun collect :: "(exec_error + 'a) list \<Rightarrow> exec_error + 'a list" where
  "collect [] = Inr []"
| "collect (Inl e # rest) = Inl e"
| "collect (Inr x # rest) = (case collect rest of Inl e \<Rightarrow> Inl e | Inr xs \<Rightarrow> Inr (x # xs))"

fun eval_expr :: "(string \<Rightarrow> row list) \<Rightarrow> row list \<Rightarrow> row \<Rightarrow> qexpr \<Rightarrow> exec_error + sqlval"
  and row_iter :: "(string \<Rightarrow> row list) \<Rightarrow> row list \<Rightarrow> qplan \<Rightarrow> exec_error + row list" where
  "eval_expr db scope r (QLiteral v) = Inr v"
| "eval_expr db scope r (QField depth i) =
     (if depth < length (r # scope) \<and> i < length ((r # scope) ! depth)
      then Inr ((r # scope) ! depth ! i) else Inl ErrIndex)"
| "eval_expr db scope r (QLessThan a b) =
     (case eval_expr db scope r a of
        Inl e \<Rightarrow> Inl e
      | Inr x \<Rightarrow> (case eval_expr db scope r b of Inl e \<Rightarrow> Inl e | Inr y \<Rightarrow> less_than x y))"
| "eval_expr db scope r (QSubquery p) =
     (case row_iter db (r # scope) p of
        Inl e \<Rightarrow> Inl e
      | Inr [] \<Rightarrow> Inr Null
      | Inr [[v]] \<Rightarrow> Inr v
      | Inr _ \<Rightarrow> Inl ErrSubqueryRows)"
| "row_iter db scope (QTable name) = Inr (db name)"
| "row_iter db scope (QFilter e p) =
     (case row_iter db scope p of
        Inl err \<Rightarrow> Inl err
      | Inr rows \<Rightarrow>
          (case collect (map (\<lambda>r. eval_expr db scope r e) rows) of
             Inl err \<Rightarrow> Inl err
           | Inr keep \<Rightarrow> Inr (map fst (filter (\<lambda>(r, v). v = BoolV True) (zip rows keep)))))"
| "row_iter db scope (QProject es p) =
     (case row_iter db scope p of
        Inl err \<Rightarrow> Inl err
      | Inr rows \<Rightarrow> collect (map (\<lambda>r. collect (map (eval_expr db scope r) es)) rows))"
| "row_iter db scope (QMax e p) =
     (case row_iter db scope p of
        Inl err \<Rightarrow> Inl err
      | Inr rows \<Rightarrow>
          (case collect (map (\<lambda>r. eval_expr db scope r e) rows) of
             Inl err \<Rightarrow> Inl err
           | Inr vs \<Rightarrow> Inr [[max_agg vs]]))"
| "row_iter db scope (QSort i p) =
     (case row_iter db scope p of
        Inl err \<Rightarrow> Inl err
      | Inr rows \<Rightarrow>
          if list_all (\<lambda>r. i < length r) rows then Inr (sort_rows i rows) else Inl ErrIndex)"

definition one_pk_query :: qplan where
  "one_pk_query =
     QSort 0
       (QProject
          [QField 0 0,
           QSubquery
             (QMax (QField 0 0)
                (QFilter (QLessThan (QField 0 0) (QField 1 0)) (QTable ''one_pk'')))]
          (QTable ''one_pk''))"

section \<open>Properties of sql/type.go\<close>

subsection \<open>CompareNulls\<close>

text \<open>
  C1: whenever exactly one operand is NULL, the comparison has to order the NULL operand
  below the other one, as the comment of \<open>CompareNulls\<close> has it (nulls are ordered before
  non-nulls): in the convention of \<open>Type.Compare\<close> the answer for \<open>(NULL, v)\<close> has to be
  \<open>-1\<close> and the answer for \<open>(v, NULL)\<close> has to be \<open>+1\<close>. The code answers the other way
  round: at \<open>a = NULL\<close>, \<open>b = 5\<close> it returns \<open>(true, +1)\<close>, and at \<open>a = 5\<close>, \<open>b = NULL\<close> it
  returns \<open>(true, -1)\<close>.
\<close>

theorem CompareNulls_at_null_and_value:
  "CompareNulls (None :: int option) (Some (5 :: int)) = (True, 1) \<and>
   snd (CompareNulls (None :: int option) (Some (5 :: int))) \<noteq> - 1 \<and>
   CompareNulls (Some (5 :: int)) (None :: int option) = (True, - 1)"
  by (simp add: CompareNulls_def)

subsection \<open>ErrIfMismatchedColumns\<close>

lemma some_pair_mismatched_nth:
  "some_pair_mismatched v1 v2 \<longleftrightarrow>
     (\<exists>i < min (length v1) (length v2). columns_mismatched (v1 ! i) (v2 ! i))"
proof (induction v1 arbitrary: v2)
  case Nil
  show ?case by simp
next
  case (Cons x xs)
  show ?case
  proof (cases v2)
    case Nil
    then show ?thesis by simp
  next
    case (Cons y ys)
    have "(\<exists>i < Suc (min (length xs) (length ys)).
              columns_mismatched ((x # xs) ! i) ((y # ys) ! i))
       \<longleftrightarrow> columns_mismatched x y \<or>
           (\<exists>i < min (length xs) (length ys). columns_mismatched (xs ! i) (ys ! i))"
      by (auto simp: less_Suc_eq_0_disj simp del: columns_mismatched.simps)
    with Cons Cons.IH[of ys] show ?thesis
      by (simp del: columns_mismatched.simps)
  qed
qed

lemma ErrIfMismatchedColumns_sound:
  "(ErrIfMismatchedColumns t1 t2 = None \<longleftrightarrow> \<not> columns_mismatched t1 t2) \<and>
   (\<forall>e. ErrIfMismatchedColumns t1 t2 = Some e \<longrightarrow>
        (\<exists>m n. e = ErrInvalidOperandColumns m n \<and> m \<noteq> n))"
  "length v1 = length v2 \<Longrightarrow>
   (mismatch_loop v1 v2 = None \<longleftrightarrow> \<not> some_pair_mismatched v1 v2) \<and>
   (\<forall>e. mismatch_loop v1 v2 = Some e \<longrightarrow>
        (\<exists>m n. e = ErrInvalidOperandColumns m n \<and> m \<noteq> n))"
proof (induction t1 t2 and v1 v2 rule: ErrIfMismatchedColumns_mismatch_loop.induct)
  case (1 t1 t2)
  then show ?case by (auto split: Type.splits)
next
  case (2 uu)
  then show ?case by simp
next
  case (3 x xs)
  then show ?case by simp
next
  case (4 x xs y ys)
  then show ?case
    by (auto simp del: ErrIfMismatchedColumns.simps columns_mismatched.simps
             split: option.splits)
qed

text \<open>
  C7: \<open>ErrIfMismatchedColumns t1 t2\<close> returns an error exactly when the column counts of
  \<open>t1\<close> and \<open>t2\<close> differ (a non-tuple counts one column) or both are tuples and some
  corresponding pair of subtypes is recursively mismatched; the error is always an
  \<open>ErrInvalidOperandColumns\<close> carrying two different counts, and otherwise the result is
  \<open>nil\<close>.
\<close>

theorem ErrIfMismatchedColumns_iff:
  "(ErrIfMismatchedColumns t1 t2 \<noteq> None \<longleftrightarrow>
      NumColumns t1 \<noteq> NumColumns t2 \<or>
      (\<exists>v1 v2. t1 = TupleType v1 \<and> t2 = TupleType v2 \<and>
         (\<exists>i < length v1. ErrIfMismatchedColumns (v1 ! i) (v2 ! i) \<noteq> None))) \<and>
   (ErrIfMismatchedColumns t1 t2 \<noteq> None \<longleftrightarrow> columns_mismatched t1 t2) \<and>
   (ErrIfMismatchedColumns t1 t2 = None \<or>
      (\<exists>m n. m \<noteq> n \<and> ErrIfMismatchedColumns t1 t2 = Some (ErrInvalidOperandColumns m n)))"
proof -
  have iff: "ErrIfMismatchedColumns a b \<noteq> None \<longleftrightarrow> columns_mismatched a b" for a b
    using ErrIfMismatchedColumns_sound(1)[of a b]
    by (auto simp del: ErrIfMismatchedColumns.simps columns_mismatched.simps)
  have unfold: "columns_mismatched t1 t2 \<longleftrightarrow>
      NumColumns t1 \<noteq> NumColumns t2 \<or>
      (\<exists>v1 v2. t1 = TupleType v1 \<and> t2 = TupleType v2 \<and>
         (\<exists>i < length v1. columns_mismatched (v1 ! i) (v2 ! i)))"
  proof (cases t1)
    case t1: (TupleType v1)
    show ?thesis
    proof (cases t2)
      case t2: (TupleType v2)
      show ?thesis
      proof (cases "length v1 = length v2")
        case True
        then show ?thesis
          using t1 t2 some_pair_mismatched_nth[of v1 v2]
          by (simp del: columns_mismatched.simps
                   add: columns_mismatched.simps[of "TupleType v1" "TupleType v2"])
      next
        case False
        then show ?thesis using t1 t2 by simp
      qed
    next
      case (BaseType s)
      then show ?thesis using t1 by simp
    qed
  next
    case (BaseType s)
    then show ?thesis by simp
  qed
  have kind: "ErrIfMismatchedColumns t1 t2 = None \<or>
      (\<exists>m n. m \<noteq> n \<and> ErrIfMismatchedColumns t1 t2 = Some (ErrInvalidOperandColumns m n))"
    using ErrIfMismatchedColumns_sound(1)[of t1 t2]
    by (cases "ErrIfMismatchedColumns t1 t2") (auto simp del: ErrIfMismatchedColumns.simps)
  show ?thesis
    using iff unfold kind by (simp del: ErrIfMismatchedColumns.simps columns_mismatched.simps)
qed

theorem ErrIfMismatchedColumns_iff_witness:
  "ErrIfMismatchedColumns
     (TupleType [BaseType ''bigint'', TupleType [BaseType ''text'', BaseType ''date'']])
     (TupleType [BaseType ''bigint'', BaseType ''text''])
     = Some (ErrInvalidOperandColumns 2 1) \<and>
   columns_mismatched
     (TupleType [BaseType ''bigint'', TupleType [BaseType ''text'', BaseType ''date'']])
     (TupleType [BaseType ''bigint'', BaseType ''text'']) \<and>
   ErrIfMismatchedColumns (TupleType [BaseType ''bigint'']) (BaseType ''bigint'') = None \<and>
   \<not> columns_mismatched (TupleType [BaseType ''bigint'']) (BaseType ''bigint'')"
  using ErrIfMismatchedColumns_iff
          [of "TupleType [BaseType ''bigint'', TupleType [BaseType ''text'', BaseType ''date'']]"
              "TupleType [BaseType ''bigint'', BaseType ''text'']"]
        ErrIfMismatchedColumns_iff [of "TupleType [BaseType ''bigint'']" "BaseType ''bigint''"]
  by simp


subsection \<open>ConvertToBool\<close>

lemma scast_up_eq_0:
  fixes b :: "'a::len word"
  assumes "LENGTH('a) \<le> LENGTH('b::len)"
  shows "(scast b :: 'b word) = 0 \<longleftrightarrow> b = 0"
proof
  assume z: "(scast b :: 'b word) = 0"
  have "is_up (scast :: 'a word \<Rightarrow> 'b word)" using assms by (simp add: is_up)
  then have "(scast (scast b :: 'b word) :: 'a word) = b" by (rule scast_up_scast_id)
  with z show "b = 0" by simp
next
  assume "b = 0" then show "(scast b :: 'b word) = 0" by simp
qed

lemma ucast_up_eq_0:
  fixes b :: "'a::len word"
  assumes "LENGTH('a) \<le> LENGTH('b::len)"
  shows "(ucast b :: 'b word) = 0 \<longleftrightarrow> b = 0"
proof
  assume z: "(ucast b :: 'b word) = 0"
  have "is_up (ucast :: 'a word \<Rightarrow> 'b word)" using assms by (simp add: is_up)
  then have "(ucast (ucast b :: 'b word) :: 'a word) = b" by (rule ucast_up_ucast_id)
  with z show "b = 0" by simp
next
  assume "b = 0" then show "(ucast b :: 'b word) = 0" by simp
qed

lemmas ParseFloat_eval =
  ParseFloat_def special_def readFloat_def is_digit_def lower_def is_hex_letter_def
  float64_round_def scale_def infinity_len_def underscoreOK_def

text \<open>
  C2 (as stated): a string converts by its leading digits, so \<open>'20a'\<close>, whose numeric
  prefix is 20, converts to true. The code parses the whole string as a float; \<open>'20a'\<close> is
  not one, and converts to false.
\<close>

theorem ConvertToBool_prefix_counterexample:
  "ConvertToBool (VString ''20a'') = Inr False \<and> ConvertToBool (VString ''20a'') \<noteq> Inr True"
  by (simp add: ParseFloat_eval)

text \<open>
  C2 (amended): NULL fails with an error; a boolean converts to itself; an integer, a
  duration, a time or a float converts to true exactly when it is not zero; a string
  converts to true exactly when \<open>strconv.ParseFloat\<close> accepts the whole string and the
  parsed number is not zero, so that \<open>'20'\<close> converts to true and \<open>'20a'\<close>, \<open>'a'\<close> and \<open>''\<close>
  convert to false.
\<close>

theorem ConvertToBool_cases:
  "ConvertToBool VNil = Inl ErrCastNil \<and>
   ConvertToBool (VBool t) = Inr t \<and>
   ConvertToBool (VInt i) = Inr (i \<noteq> 0) \<and>
   ConvertToBool (VInt64 i64) = Inr (i64 \<noteq> 0) \<and>
   ConvertToBool (VInt32 i32) = Inr (i32 \<noteq> 0) \<and>
   ConvertToBool (VInt16 i16) = Inr (i16 \<noteq> 0) \<and>
   ConvertToBool (VInt8 i8) = Inr (i8 \<noteq> 0) \<and>
   ConvertToBool (VUint u) = Inr (u \<noteq> 0) \<and>
   ConvertToBool (VUint64 u64) = Inr (u64 \<noteq> 0) \<and>
   ConvertToBool (VUint32 u32) = Inr (u32 \<noteq> 0) \<and>
   ConvertToBool (VUint16 u16) = Inr (u16 \<noteq> 0) \<and>
   ConvertToBool (VUint8 u8) = Inr (u8 \<noteq> 0) \<and>
   ConvertToBool (VDuration d) = Inr (d \<noteq> 0) \<and>
   ConvertToBool (VTime nanos) = Inr (nanos \<noteq> 0) \<and>
   ConvertToBool (VFloat32 f32) = Inr (f32 \<noteq> Fin 0) \<and>
   ConvertToBool (VFloat64 f64) = Inr (f64 \<noteq> Fin 0) \<and>
   ConvertToBool (VString s) = Inr (\<exists>f. ParseFloat s = Inr f \<and> f \<noteq> Fin 0) \<and>
   ConvertToBool (VString ''20'') = Inr True \<and>
   ConvertToBool (VString ''20a'') = Inr False \<and>
   ConvertToBool (VString ''a'') = Inr False \<and>
   ConvertToBool (VString '''') = Inr False"
proof -
  have str: "ConvertToBool (VString s) = Inr (\<exists>f. ParseFloat s = Inr f \<and> f \<noteq> Fin 0)"
    by (cases "ParseFloat s") simp_all
  have ex: "ConvertToBool (VString ''20'') = Inr True"
    "ConvertToBool (VString ''20a'') = Inr False"
    "ConvertToBool (VString ''a'') = Inr False"
    "ConvertToBool (VString '''') = Inr False"
    by (simp_all add: ParseFloat_eval)
  show ?thesis
    using str ex by (simp add: scast_up_eq_0 ucast_up_eq_0 del: ConvertToBool.simps(16))
qed

theorem ConvertToBool_cases_witness:
  "ConvertToBool (VInt32 (- 7)) = Inr True \<and> ConvertToBool (VUint8 0) = Inr False \<and>
   ConvertToBool (VString ''20a'') = Inr False"
  using ConvertToBool_cases [of True 0 0 "- 7" 0 0 0 0 0 0 0 0 0 NaN NaN "''0.0''"]
  by (simp del: ConvertToBool.simps)

section \<open>Properties of ST_AREA\<close>

subsection \<open>Rounding to float64\<close>

lemma round_half_even_of_int [simp]: "round_half_even (of_int m) = m"
  by (simp add: round_half_even_def)

lemma round_half_even_ge: "of_int k \<le> y \<Longrightarrow> k \<le> round_half_even y"
proof -
  assume "of_int k \<le> y"
  then have "k \<le> \<lfloor>y\<rfloor>" by (simp add: le_floor_iff)
  then show ?thesis by (simp add: round_half_even_def Let_def)
qed

lemma round_half_even_le: "y \<le> of_int k \<Longrightarrow> round_half_even y \<le> k"
proof (cases "y = of_int k")
  case True
  then show ?thesis by simp
next
  case False
  assume "y \<le> of_int k"
  with False have "y < of_int k" by simp
  then have "\<lfloor>y\<rfloor> < k" by (simp add: floor_less_iff)
  then show ?thesis by (simp add: round_half_even_def Let_def)
qed

lemma ulp_pos [simp]: "0 < ulp x"
  by (simp add: ulp_def)

lemma ulp_nonzero [simp]: "ulp x \<noteq> 0"
  by (simp add: ulp_def)

lemma exponent_bounds:
  assumes "x \<noteq> 0"
  shows "2 powi \<lfloor>log 2 \<bar>x\<bar>\<rfloor> \<le> \<bar>x\<bar>" "\<bar>x\<bar> < 2 powi (\<lfloor>log 2 \<bar>x\<bar>\<rfloor> + 1)"
proof -
  from assms have pos: "0 < \<bar>x\<bar>" by simp
  have two: "(1::real) < 2" by simp
  have a: "2 powr real_of_int k = 2 powi k" for k by (simp add: powr_real_of_int')
  have "2 powi \<lfloor>log 2 \<bar>x\<bar>\<rfloor> \<le> \<bar>x\<bar> \<and> \<bar>x\<bar> < 2 powi (\<lfloor>log 2 \<bar>x\<bar>\<rfloor> + 1)"
    using floor_log_eq_powr_iff [OF pos two, of "\<lfloor>log 2 \<bar>x\<bar>\<rfloor>", unfolded a] by blast
  then show "2 powi \<lfloor>log 2 \<bar>x\<bar>\<rfloor> \<le> \<bar>x\<bar>" "\<bar>x\<bar> < 2 powi (\<lfloor>log 2 \<bar>x\<bar>\<rfloor> + 1)"
    by blast+
qed

lemma power_int_mono2: "m \<le> n \<Longrightarrow> (2::real) powi m \<le> 2 powi n"
  by (rule power_int_increasing) simp_all

lemma power_int_less2: "(2::real) powi m < 2 powi n \<Longrightarrow> m < n"
  by (metis power_int_mono2 not_le)

text \<open>Rounding keeps the sign.\<close>

lemma float64_nearest_nonneg: "0 \<le> x \<Longrightarrow> float64_nonneg (float64_nearest x)"
proof -
  assume x: "0 \<le> x"
  then have "0 \<le> x / ulp x" by (simp add: less_imp_le)
  then have "0 \<le> round_half_even (x / ulp x)" using round_half_even_ge [of 0] by simp
  then have "0 \<le> of_int (round_half_even (x / ulp x)) * ulp x" by (simp add: less_imp_le)
  with x show ?thesis by (auto simp: float64_nearest_def Let_def)
qed

text \<open>Overflow.\<close>

lemma float64_nearest_overflow:
  assumes "2 ^ 1024 \<le> \<bar>x\<bar>"
  shows "float64_nearest x = Inf (x < 0)"
proof -
  from assms have nz: "x \<noteq> 0" by auto
  define e where "e = \<lfloor>log 2 \<bar>x\<bar>\<rfloor>"
  have lo: "2 powi e \<le> \<bar>x\<bar>" and hi: "\<bar>x\<bar> < 2 powi (e + 1)"
    using exponent_bounds [OF nz] by (simp_all add: e_def)
  have "(2::real) powi 1024 < 2 powi (e + 1)" using assms hi by simp
  then have e: "1024 \<le> e" using power_int_less2 [of 1024 "e + 1"] by simp
  then have u: "ulp x = 2 powi (e - 52)" by (simp add: ulp_def e_def)
  have q: "\<bar>x\<bar> / ulp x = \<bar>x / ulp x\<bar>" by (simp add: less_imp_le)
  have "2 powi e / ulp x \<le> \<bar>x\<bar> / ulp x"
    using lo by (intro divide_right_mono) (simp_all add: less_imp_le)
  moreover have "2 powi e / ulp x = (2::real) ^ 52"
    unfolding u by (simp add: power_int_diff)
  ultimately have "(2::real) ^ 52 \<le> \<bar>x\<bar> / ulp x" by simp
  then have big: "real_of_int (2 ^ 52) \<le> \<bar>x / ulp x\<bar>" using q by simp
  have m: "2 ^ 52 \<le> \<bar>round_half_even (x / ulp x)\<bar>"
  proof (cases "0 \<le> x / ulp x")
    case True
    with big have "2 ^ 52 \<le> round_half_even (x / ulp x)"
      by (intro round_half_even_ge) simp
    then show ?thesis by simp
  next
    case False
    with big have "x / ulp x \<le> of_int (- (2 ^ 52))" by simp
    then have "round_half_even (x / ulp x) \<le> - (2 ^ 52)" by (rule round_half_even_le)
    then show ?thesis by simp
  qed
  have "\<bar>of_int (round_half_even (x / ulp x)) * ulp x\<bar>
      = real_of_int \<bar>round_half_even (x / ulp x)\<bar> * 2 powi (e - 52)"
    by (simp add: abs_mult u)
  also have "\<dots> \<ge> real_of_int (2 ^ 52) * 2 powi (e - 52)"
    using m by (intro mult_right_mono) (simp_all only: of_int_le_iff, simp)
  finally have "2 powi 52 * 2 powi (e - 52) \<le> \<bar>of_int (round_half_even (x / ulp x)) * ulp x\<bar>"
    by simp
  moreover have "(2::real) powi 52 * 2 powi (e - 52) = 2 powi e"
    using power_int_add [of "2::real" 52 "e - 52"] by simp
  moreover have "(2::real) powi 1024 \<le> 2 powi e" using e by (rule power_int_mono2)
  ultimately have "2 ^ 1024 \<le> \<bar>of_int (round_half_even (x / ulp x)) * ulp x\<bar>" by simp
  with nz show ?thesis by (simp add: float64_nearest_def Let_def)
qed

text \<open>Halves of integers below \<open>2^53\<close> are float64 values.\<close>

lemma float64_nearest_half_int:
  assumes "\<bar>k\<bar> < 2 ^ 53"
  shows "float64_nearest (of_int k / 2) = Fin (of_int k / 2)"
proof (cases "k = 0")
  case True
  then show ?thesis by (simp add: float64_nearest_def)
next
  case False
  define x :: real where "x = of_int k / 2"
  from False have nz: "x \<noteq> 0" by (simp add: x_def)
  define e where "e = \<lfloor>log 2 \<bar>x\<bar>\<rfloor>"
  have lo: "2 powi e \<le> \<bar>x\<bar>" and hi: "\<bar>x\<bar> < 2 powi (e + 1)"
    using exponent_bounds [OF nz] by (simp_all add: e_def)
  from False have "1 \<le> \<bar>k\<bar>" by simp
  then have "1 \<le> \<bar>real_of_int k\<bar>" by (metis of_int_1_le_iff of_int_abs)
  then have "1 / 2 \<le> \<bar>x\<bar>" by (simp add: x_def)
  with hi have "(2::real) powi (- 1) < 2 powi (e + 1)" by simp
  then have e1: "- 1 \<le> e" using power_int_less2 [of "- 1" "e + 1"] by simp
  from assms have "\<bar>real_of_int k\<bar> < 2 ^ 53" by (metis of_int_abs of_int_less_numeral_power_cancel_iff)
  then have "\<bar>x\<bar> < 2 ^ 52" by (simp add: x_def)
  with lo have "(2::real) powi e < 2 powi 52" by simp
  then have e2: "e \<le> 51" using power_int_less2 [of e 52] by simp
  from e1 have u: "ulp x = 2 powi (e - 52)" by (simp add: ulp_def e_def)
  have inv: "1 / (2::real) powi (e - 52) = 2 powi (52 - e)"
    using power_int_minus_divide [of "2::real" "e - 52"] by simp
  have dbl: "(2::real) powi (52 - e) = 2 * 2 powi (51 - e)"
    using power_int_add_1' [of "2::real" "51 - e"] by simp
  have "x / ulp x = of_int k / 2 * (1 / 2 powi (e - 52))"
    unfolding u by (simp add: x_def)
  also have "\<dots> = of_int k * 2 powi (51 - e)"
    unfolding inv dbl by simp
  also have "(2::real) powi (51 - e) = 2 ^ nat (51 - e)"
    using e2 by (simp add: power_int_nonneg_exp)
  finally have q: "x / ulp x = of_int (k * 2 ^ nat (51 - e))" by simp
  have "of_int (round_half_even (x / ulp x)) * ulp x = x / ulp x * ulp x"
    unfolding q round_half_even_of_int ..
  also have "\<dots> = x" by simp
  finally have y: "of_int (round_half_even (x / ulp x)) * ulp x = x" .
  have "\<bar>x\<bar> < 2 ^ 1024" using \<open>\<bar>x\<bar> < 2 ^ 52\<close> by (rule less_trans) simp
  with nz y show ?thesis by (simp add: float64_nearest_def Let_def flip: x_def)
qed

lemma float64_nearest_int:
  assumes "\<bar>k\<bar> < 2 ^ 52"
  shows "float64_nearest (of_int k) = Fin (of_int k)"
proof -
  from assms have "\<bar>2 * k\<bar> < 2 ^ 53" by simp
  then have "float64_nearest (of_int (2 * k) / 2) = Fin (of_int (2 * k) / 2)"
    by (rule float64_nearest_half_int)
  then show ?thesis by simp
qed

lemma float64_nearest_Ints: "x \<in> \<int> \<Longrightarrow> \<bar>x\<bar> < 2 ^ 52 \<Longrightarrow> float64_nearest x = Fin x"
  by (auto elim!: Ints_cases intro!: float64_nearest_int simp flip: of_int_abs)

lemma float64_nearest_half_Ints: "x \<in> \<int> \<Longrightarrow> \<bar>x\<bar> < 2 ^ 53 \<Longrightarrow> float64_nearest (x / 2) = Fin (x / 2)"
  by (auto elim!: Ints_cases intro!: float64_nearest_half_int simp flip: of_int_abs)

subsection \<open>calculateArea and Area.Eval in float64 arithmetic\<close>

lemma shoelace_loop_foldl:
  "shoelace_loop ps a =
     foldl float64_add a
       (map (\<lambda>(p1, p2). float64_sub (float64_mul (X p1) (Y p2)) (float64_mul (Y p1) (X p2)))
          (zip ps (tl ps)))"
  by (induction ps a rule: shoelace_loop.induct) simp_all

lemma abs_if_less_zero:
  "(if float64_less_zero a then float64_neg a else a) = float64_abs a"
  by (cases a) auto

lemma calculateArea_ring: "calculateArea l = float64_ring_area l"
  by (simp add: calculateArea_def float64_ring_area_def float64_shoelace_sum_def
        shoelace_loop_foldl abs_if_less_zero Let_def)

lemma total_area_loop_holes:
  "i \<noteq> 0 \<Longrightarrow> total_area_loop i ls t =
     foldl (\<lambda>total hole. float64_sub total (float64_ring_area hole)) t ls"
  by (induction i ls t rule: total_area_loop.induct)
     (simp_all add: calculateArea_ring Let_def float64_sub_def)

lemma total_area_polygon: "total_area_loop 0 (Lines p) (Fin 0) = float64_polygon_area p"
  by (cases "Lines p")
     (simp_all add: float64_polygon_area_def Let_def calculateArea_ring total_area_loop_holes)

lemma float64_half_nonneg: "float64_nonneg a \<Longrightarrow> float64_nonneg (float64_half a)"
  by (cases a) (simp_all add: float64_nearest_nonneg)

lemma float64_abs_nonneg: "float64_abs a = NaN \<or> float64_nonneg (float64_abs a)"
  by (cases a) simp_all

lemma float64_ring_area_nonneg:
  "float64_ring_area l = NaN \<or> float64_nonneg (float64_ring_area l)"
  using float64_abs_nonneg [of "float64_shoelace_sum (Points l)"]
  by (auto simp: float64_ring_area_def float64_half_nonneg)

subsection \<open>Polygons on which no operation rounds\<close>

lemma shoelace_sum_Cons2:
  "shoelace_sum (p1 # p2 # ps) =
     (coordinate (X p1) * coordinate (Y p2) - coordinate (Y p1) * coordinate (X p2))
     + shoelace_sum (p2 # ps)"
  unfolding shoelace_sum_def
  by (simp add: sum.lessThan_Suc_shift del: sum.lessThan_Suc)

lemma shoelace_sum_short: "shoelace_sum [] = 0" "shoelace_sum [q] = 0"
  by (simp_all add: shoelace_sum_def)

lemma int_coordinate_Fin:
  assumes "int_coordinate B c"
  obtains x where "c = Fin x" "x \<in> \<int>" "\<bar>x\<bar> \<le> real B"
  using assms by (cases c) (simp_all add: int_coordinate_def)

lemma product_bound:
  fixes x y :: real
  assumes "\<bar>x\<bar> \<le> b" "\<bar>y\<bar> \<le> b"
  shows "\<bar>x * y\<bar> \<le> b * b"
  unfolding abs_mult using assms by (intro mult_mono) simp_all

lemma shoelace_loop_exact:
  assumes "\<forall>q \<in> set ps. int_coordinate B (X q) \<and> int_coordinate B (Y q)"
    and "a \<in> \<int>"
    and "\<bar>a\<bar> + 2 * (real B * real B) * real (length ps - 1) < 2 ^ 52"
  shows "shoelace_loop ps (Fin a) = Fin (a + shoelace_sum ps) \<and>
         shoelace_sum ps \<in> \<int> \<and>
         \<bar>shoelace_sum ps\<bar> \<le> 2 * (real B * real B) * real (length ps - 1)"
  using assms
proof (induction ps "Fin a" arbitrary: a rule: shoelace_loop.induct)
  case (1 p1 p2 ps)
  let ?bb = "real B * real B"
  from "1.prems"(1) obtain x1 y1 x2 y2 where
    c: "X p1 = Fin x1" "Y p1 = Fin y1" "X p2 = Fin x2" "Y p2 = Fin y2"
    and i: "x1 \<in> \<int>" "y1 \<in> \<int>" "x2 \<in> \<int>" "y2 \<in> \<int>"
    and b: "\<bar>x1\<bar> \<le> real B" "\<bar>y1\<bar> \<le> real B" "\<bar>x2\<bar> \<le> real B" "\<bar>y2\<bar> \<le> real B"
    by (metis int_coordinate_Fin list.set_intros(1) list.set_intros(2))
  have bb0: "0 \<le> ?bb" by simp
  have len: "real (length (p1 # p2 # ps) - 1) = 1 + real (length (p2 # ps) - 1)" by simp
  from "1.prems"(3) have room: "\<bar>a\<bar> + 2 * ?bb + 2 * ?bb * real (length (p2 # ps) - 1) < 2 ^ 52"
    unfolding len by (simp add: algebra_simps)
  have rest0: "0 \<le> 2 * ?bb * real (length (p2 # ps) - 1)" by simp
  have p: "\<bar>x1 * y2\<bar> \<le> ?bb" and q: "\<bar>y1 * x2\<bar> \<le> ?bb"
    using b by (simp_all add: product_bound)
  define t where "t = x1 * y2 - y1 * x2"
  have ti: "t \<in> \<int>" using i by (simp add: t_def)
  have tb: "\<bar>t\<bar> \<le> 2 * ?bb" using p q by (simp add: t_def)
  have small: "2 * ?bb < 2 ^ 52" using room rest0 by linarith
  have mul1: "float64_mul (X p1) (Y p2) = Fin (x1 * y2)"
    using i p small by (simp add: c float64_nearest_Ints)
  have mul2: "float64_mul (Y p1) (X p2) = Fin (y1 * x2)"
    using i q small by (simp add: c float64_nearest_Ints)
  have sub: "float64_sub (float64_mul (X p1) (Y p2)) (float64_mul (Y p1) (X p2)) = Fin t"
    using ti tb small by (simp add: mul1 mul2 float64_sub_def float64_nearest_Ints t_def)
  have ai: "a + t \<in> \<int>" using "1.prems"(2) ti by simp
  have ab: "\<bar>a + t\<bar> \<le> \<bar>a\<bar> + 2 * ?bb" using tb by linarith
  have "\<bar>a + t\<bar> < 2 ^ 52" using ab room rest0 by linarith
  with ai have add: "float64_add (Fin a) (Fin t) = Fin (a + t)"
    by (simp add: float64_nearest_Ints)
  have step: "float64_add (Fin a)
      (float64_sub (float64_mul (X p1) (Y p2)) (float64_mul (Y p1) (X p2))) = Fin (a + t)"
    by (simp only: sub add)
  have ih: "shoelace_loop (p2 # ps) (Fin (a + t)) = Fin (a + t + shoelace_sum (p2 # ps)) \<and>
         shoelace_sum (p2 # ps) \<in> \<int> \<and>
         \<bar>shoelace_sum (p2 # ps)\<bar> \<le> 2 * ?bb * real (length (p2 # ps) - 1)"
  proof (rule "1.hyps" [OF step])
    show "\<forall>q \<in> set (p2 # ps). int_coordinate B (X q) \<and> int_coordinate B (Y q)"
      using "1.prems"(1) by simp
    show "a + t \<in> \<int>" by (rule ai)
    show "\<bar>a + t\<bar> + 2 * ?bb * real (length (p2 # ps) - 1) < 2 ^ 52"
      using ab room by linarith
  qed
  have sum: "shoelace_sum (p1 # p2 # ps) = t + shoelace_sum (p2 # ps)"
    by (simp add: shoelace_sum_Cons2 c t_def)
  have "shoelace_loop (p1 # p2 # ps) (Fin a) = shoelace_loop (p2 # ps) (Fin (a + t))"
    by (simp only: shoelace_loop.simps step)
  with ih have run: "shoelace_loop (p1 # p2 # ps) (Fin a) = Fin (a + shoelace_sum (p1 # p2 # ps))"
    by (simp add: sum add.assoc)
  have si: "shoelace_sum (p1 # p2 # ps) \<in> \<int>" using ih ti by (simp add: sum)
  have "\<bar>shoelace_sum (p1 # p2 # ps)\<bar> \<le> 2 * ?bb + 2 * ?bb * real (length (p2 # ps) - 1)"
    unfolding sum using ih tb by linarith
  then have sb: "\<bar>shoelace_sum (p1 # p2 # ps)\<bar> \<le> 2 * ?bb * real (length (p1 # p2 # ps) - 1)"
    unfolding len by (simp add: algebra_simps)
  from run si sb show ?case by blast
qed (simp_all add: shoelace_sum_short)


lemma calculateArea_exact:
  assumes "\<forall>q \<in> set (Points l). int_coordinate B (X q) \<and> int_coordinate B (Y q)"
    and "2 * (real B * real B) * real (length (Points l)) < 2 ^ 52"
  shows "calculateArea l = Fin (ring_area l) \<and> 2 * ring_area l \<in> \<int> \<and>
         0 \<le> ring_area l \<and> ring_area l \<le> real B * real B * real (length (Points l))"
proof -
  let ?bb = "real B * real B"
  have le: "2 * ?bb * real (length (Points l) - 1) \<le> 2 * ?bb * real (length (Points l))"
    by (intro mult_left_mono) simp_all
  with assms(2) have room: "\<bar>0::real\<bar> + 2 * ?bb * real (length (Points l) - 1) < 2 ^ 52"
    by simp
  from shoelace_loop_exact [OF assms(1) Ints_0 room]
  have run: "shoelace_loop (Points l) (Fin 0) = Fin (shoelace_sum (Points l))"
    and si: "shoelace_sum (Points l) \<in> \<int>"
    and sb: "\<bar>shoelace_sum (Points l)\<bar> \<le> 2 * ?bb * real (length (Points l) - 1)"
    by simp_all
  define s where "s = shoelace_sum (Points l)"
  have ai: "\<bar>s\<bar> \<in> \<int>" using si by (simp add: s_def)
  have ab: "\<bar>s\<bar> \<le> 2 * ?bb * real (length (Points l))" using sb le by (simp add: s_def)
  with assms(2) have "\<bar>\<bar>s\<bar>\<bar> < 2 ^ 53" by simp
  with ai have half: "float64_nearest (\<bar>s\<bar> / 2) = Fin (\<bar>s\<bar> / 2)"
    by (rule float64_nearest_half_Ints)
  have "calculateArea l = float64_half (float64_abs (Fin s))"
    by (simp add: calculateArea_def run abs_if_less_zero Let_def s_def)
  then have "calculateArea l = Fin (ring_area l)"
    using half by (simp add: ring_area_def s_def)
  moreover have "2 * ring_area l \<in> \<int>" using ai by (simp add: ring_area_def s_def)
  moreover have "0 \<le> ring_area l" by (simp add: ring_area_def)
  moreover have "ring_area l \<le> ?bb * real (length (Points l))"
    using ab by (simp add: ring_area_def s_def)
  ultimately show ?thesis by blast
qed

lemma total_area_loop_exact:
  assumes "\<forall>l \<in> set ls. \<forall>q \<in> set (Points l). int_coordinate B (X q) \<and> int_coordinate B (Y q)"
    and "\<forall>l \<in> set ls. 2 * (real B * real B) * real (length (Points l)) < 2 ^ 52"
    and "2 * t \<in> \<int>"
    and "\<bar>t\<bar> + real B * real B * real (sum_list (map (\<lambda>l. length (Points l)) ls)) < 2 ^ 52"
  shows "total_area_loop i ls (Fin t) =
           Fin (if i = 0 then (case ls of [] \<Rightarrow> t
                               | outer # holes \<Rightarrow> t + ring_area outer - sum_list (map ring_area holes))
                else t - sum_list (map ring_area ls))"
  using assms
proof (induction ls arbitrary: i t)
  case Nil
  then show ?case by simp
next
  case (Cons l ls)
  let ?bb = "real B * real B"
  let ?n = "real (sum_list (map (\<lambda>l. length (Points l)) ls))"
  from Cons.prems(1,2) have
    ring: "calculateArea l = Fin (ring_area l)" "2 * ring_area l \<in> \<int>" "0 \<le> ring_area l"
      "ring_area l \<le> ?bb * real (length (Points l))"
    using calculateArea_exact [of l B] by simp_all
  define r where "r = (if i \<noteq> 0 then - ring_area l else ring_area l)"
  have ri: "2 * r \<in> \<int>" using ring(2) by (simp add: r_def)
  have rb: "\<bar>r\<bar> \<le> ?bb * real (length (Points l))" using ring(3,4) by (simp add: r_def)
  from Cons.prems(4) have room: "\<bar>t\<bar> + ?bb * real (length (Points l)) + ?bb * ?n < 2 ^ 52"
    by (simp add: algebra_simps)
  have n0: "0 \<le> ?bb * ?n" by simp
  have tb: "\<bar>t + r\<bar> \<le> \<bar>t\<bar> + ?bb * real (length (Points l))" using rb by linarith
  have "2 * t + 2 * r \<in> \<int>" using Cons.prems(3) ri by (rule Ints_add)
  moreover have "(2::real) ^ 53 = 2 * 2 ^ 52" by simp
  then have "\<bar>2 * t + 2 * r\<bar> < 2 ^ 53" using rb room n0 by linarith
  ultimately have "float64_nearest ((2 * t + 2 * r) / 2) = Fin ((2 * t + 2 * r) / 2)"
    by (rule float64_nearest_half_Ints)
  moreover have "(2 * t + 2 * r) / 2 = t + r" by simp
  ultimately have add: "float64_add (Fin t) (Fin r) = Fin (t + r)"
    by (simp only: float64_add.simps)
  have neg: "(if i \<noteq> 0 then float64_neg (Fin (ring_area l)) else Fin (ring_area l)) = Fin r"
    by (simp add: r_def)
  have step: "total_area_loop i (l # ls) (Fin t) = total_area_loop (i + 1) ls (Fin (t + r))"
    by (simp only: total_area_loop.simps Let_def ring(1) neg add)
  have "total_area_loop (i + 1) ls (Fin (t + r)) =
      Fin (if i + 1 = 0 then (case ls of [] \<Rightarrow> t + r
                               | outer # holes \<Rightarrow> t + r + ring_area outer - sum_list (map ring_area holes))
           else t + r - sum_list (map ring_area ls))"
  proof (rule Cons.IH)
    show "\<forall>l \<in> set ls. \<forall>q \<in> set (Points l). int_coordinate B (X q) \<and> int_coordinate B (Y q)"
      using Cons.prems(1) by simp
    show "\<forall>l \<in> set ls. 2 * ?bb * real (length (Points l)) < 2 ^ 52"
      using Cons.prems(2) by simp
    show "2 * (t + r) \<in> \<int>" using Cons.prems(3) ri by (simp add: algebra_simps)
    show "\<bar>t + r\<bar> + ?bb * ?n < 2 ^ 52" using tb room by linarith
  qed
  with step show ?case by (simp add: r_def)
qed

lemma ring_room:
  assumes "2 * (real B * real B) * real (sum_list (map (\<lambda>l. length (Points l)) ls)) < 2 ^ 52"
    and "l \<in> set ls"
  shows "2 * (real B * real B) * real (length (Points l)) < 2 ^ 52"
proof -
  from assms(2) have "length (Points l) \<le> sum_list (map (\<lambda>l. length (Points l)) ls)"
    by (induction ls) auto
  then have "2 * (real B * real B) * real (length (Points l))
      \<le> 2 * (real B * real B) * real (sum_list (map (\<lambda>l. length (Points l)) ls))"
    by (intro mult_left_mono) simp_all
  with assms(1) show ?thesis by linarith
qed

lemma Area_Eval_exact:
  assumes "int_points B p" and "2 * B * B * point_count p < 2 ^ 52"
  shows "Area_Eval (Inr (VPolygon p)) = Inr (VFloat64 (Fin (polygon_area p)))"
proof -
  let ?bb = "real B * real B"
  let ?n = "real (sum_list (map (\<lambda>l. length (Points l)) (Lines p)))"
  from assms(2) have "real (2 * B * B * point_count p) < real (2 ^ 52)"
    by (simp only: of_nat_less_iff)
  then have room: "2 * ?bb * ?n < 2 ^ 52" by (simp add: point_count_def)
  have "0 \<le> ?bb * ?n" by simp
  with room have r0: "\<bar>0::real\<bar> + ?bb * ?n < 2 ^ 52" by simp
  have "total_area_loop 0 (Lines p) (Fin 0) =
      Fin (if (0::nat) = 0
           then (case Lines p of [] \<Rightarrow> 0
                 | outer # holes \<Rightarrow> 0 + ring_area outer - sum_list (map ring_area holes))
           else 0 - sum_list (map ring_area (Lines p)))"
  proof (rule total_area_loop_exact)
    show "\<forall>l \<in> set (Lines p). \<forall>q \<in> set (Points l).
        int_coordinate B (X q) \<and> int_coordinate B (Y q)"
      using assms(1) by (simp add: int_points_def)
    show "\<forall>l \<in> set (Lines p). 2 * ?bb * real (length (Points l)) < 2 ^ 52"
      using ring_room [OF room] by blast
    show "2 * (0::real) \<in> \<int>" by simp
    show "\<bar>0::real\<bar> + ?bb * ?n < 2 ^ 52" by (rule r0)
  qed
  then have "total_area_loop 0 (Lines p) (Fin 0) = Fin (polygon_area p)"
    by (simp add: polygon_area_def split: list.splits)
  then show ?thesis by (simp add: Area_Eval_def)
qed

subsection \<open>ST_AREA\<close>

lemma Area_Eval_polygon:
  "Area_Eval (Inr (VPolygon p)) = Inr (VFloat64 (total_area_loop 0 (Lines p) (Fin 0)))"
  by (simp add: Area_Eval_def)

lemma far_square_NaN:
  assumes "2 ^ 1024 \<le> a * a" "0 < a"
  shows "calculateArea \<lparr>Points =
     [\<lparr>X = Fin a, Y = Fin a\<rparr>, \<lparr>X = Fin (2 * a), Y = Fin a\<rparr>,
      \<lparr>X = Fin (2 * a), Y = Fin (2 * a)\<rparr>, \<lparr>X = Fin a, Y = Fin (2 * a)\<rparr>,
      \<lparr>X = Fin a, Y = Fin a\<rparr>]\<rparr> = NaN"
proof -
  from assms have big: "2 ^ 1024 \<le> \<bar>a * a\<bar>" "2 ^ 1024 \<le> \<bar>a * (2 * a)\<bar>" by simp_all
  have first: "float64_mul (Fin a) (Fin a) = Inf False"
    using big(1) assms(2) by (simp add: float64_nearest_overflow not_less mult_nonneg_nonneg less_imp_le)
  have second: "float64_mul (Fin a) (Fin (2 * a)) = Inf False"
    using big(2) assms(2) by (simp add: float64_nearest_overflow not_less less_imp_le)
  have "float64_add (Fin 0) (float64_sub (float64_mul (Fin a) (Fin a))
          (float64_mul (Fin a) (Fin (2 * a)))) = NaN"
    unfolding first second by (simp add: float64_sub_def)
  then show ?thesis
    by (simp add: calculateArea_def Let_def del: float64_mul.simps)
qed

text \<open>
  C10 (as stated): for every polygon \<open>ST_AREA\<close> returns the shoelace area of the first
  ring minus the shoelace areas of the other rings, and the area computed for a ring is
  never negative. For the square with corners \<open>(2^600, 2^600)\<close> and \<open>(2^601, 2^601)\<close>,
  whose area is \<open>2^1200\<close>, the first step of \<open>calculateArea\<close> multiplies \<open>2^600\<close> by
  \<open>2^600\<close> and by \<open>2^601\<close>; both products overflow to \<open>+Inf\<close>, their difference is NaN, and
  NaN is what \<open>calculateArea\<close> returns for the ring and \<open>Area.Eval\<close> for the polygon: not a
  non-negative number, and not the area.
\<close>

theorem calculateArea_overflow_counterexample:
  "calculateArea far_ring = NaN \<and>
   \<not> float64_nonneg (calculateArea far_ring) \<and>
   ring_area far_ring = 2 ^ 1200 \<and>
   Area_Eval (Inr (VPolygon \<lparr>Lines = [far_ring]\<rparr>)) = Inr (VFloat64 NaN) \<and>
   polygon_area \<lparr>Lines = [far_ring]\<rparr> = 2 ^ 1200"
proof -
  have area: "calculateArea far_ring = NaN"
    by (rule far_square_NaN) simp_all
  have sum: "shoelace_sum (Points far_ring) = 2 * 2 ^ 1200"
    by (simp add: shoelace_sum_Cons2 shoelace_sum_short)
  have ring: "ring_area far_ring = 2 ^ 1200"
    unfolding ring_area_def sum by simp
  have neg: "\<not> float64_nonneg (calculateArea far_ring)"
    unfolding area by simp
  have "total_area_loop 0 [far_ring] (Fin 0) = NaN"
    unfolding total_area_loop.simps Let_def area by simp
  then have eval: "Area_Eval (Inr (VPolygon \<lparr>Lines = [far_ring]\<rparr>)) = Inr (VFloat64 NaN)"
    by (simp only: Area_Eval_polygon Polygon.select_convs)
  have poly: "polygon_area \<lparr>Lines = [far_ring]\<rparr> = 2 ^ 1200"
    by (simp only: polygon_area_def Polygon.select_convs list.case ring list.map sum_list.Nil
          diff_zero)
  from area neg ring eval poly show ?thesis by (intro conjI)
qed

text \<open>
  C10 (amended): \<open>Area.Eval\<close> passes an error of its argument on, returns NULL for a NULL
  argument and fails with \<open>ErrInvalidAreaArgument\<close> for every other argument that is not a
  polygon. For a polygon it returns the \<open>float64\<close> that comes of adding the area of the first
  ring to 0 and subtracting the areas of the other rings in their order, all in \<open>float64\<close>
  arithmetic, where the area that \<open>calculateArea\<close> gives a ring is half the absolute value
  of its \<open>float64\<close> shoelace sum: NaN, or a value that is not negative (\<open>+Inf\<close> included).
  When every coordinate is an integer of magnitude at most \<open>B\<close> and \<open>2 * B * B\<close> times the
  number of points is below \<open>2^52\<close>, no operation rounds: the result is exactly the shoelace
  area of the first ring minus the shoelace areas of the other rings, and each ring's
  computed area is its shoelace area, which is not negative.
\<close>

theorem Area_Eval_float64:
  "Area_Eval (Inl err) = Inl err \<and>
   Area_Eval (Inr VNil) = Inr VNil \<and>
   (v \<noteq> VNil \<and> (\<forall>q. v \<noteq> VPolygon q) \<longrightarrow>
      Area_Eval (Inr v) = Inl (ErrInvalidAreaArgument v)) \<and>
   Area_Eval (Inr (VPolygon p)) = Inr (VFloat64 (float64_polygon_area p)) \<and>
   calculateArea l = float64_ring_area l \<and>
   (calculateArea l = NaN \<or> float64_nonneg (calculateArea l)) \<and>
   (int_points B p \<and> 2 * B * B * point_count p < 2 ^ 52 \<longrightarrow>
      Area_Eval (Inr (VPolygon p)) = Inr (VFloat64 (Fin (polygon_area p))) \<and>
      (\<forall>ring \<in> set (Lines p). calculateArea ring = Fin (ring_area ring) \<and> 0 \<le> ring_area ring))"
proof -
  have other: "v \<noteq> VNil \<and> (\<forall>q. v \<noteq> VPolygon q) \<longrightarrow>
      Area_Eval (Inr v) = Inl (ErrInvalidAreaArgument v)"
    by (cases v) (simp_all add: Area_Eval_def)
  have poly: "Area_Eval (Inr (VPolygon p)) = Inr (VFloat64 (float64_polygon_area p))"
    by (simp add: Area_Eval_def total_area_polygon)
  have nonneg: "calculateArea l = NaN \<or> float64_nonneg (calculateArea l)"
    unfolding calculateArea_ring by (rule float64_ring_area_nonneg)
  have exact: "Area_Eval (Inr (VPolygon p)) = Inr (VFloat64 (Fin (polygon_area p))) \<and>
      (\<forall>ring \<in> set (Lines p). calculateArea ring = Fin (ring_area ring) \<and> 0 \<le> ring_area ring)"
    if a: "int_points B p \<and> 2 * B * B * point_count p < 2 ^ 52"
  proof -
    from a have "real (2 * B * B * point_count p) < real (2 ^ 52)"
      by (simp only: of_nat_less_iff)
    then have room: "2 * (real B * real B) *
        real (sum_list (map (\<lambda>l. length (Points l)) (Lines p))) < 2 ^ 52"
      by (simp add: point_count_def)
    have "calculateArea ring = Fin (ring_area ring) \<and> 0 \<le> ring_area ring"
      if "ring \<in> set (Lines p)" for ring
      using calculateArea_exact [of ring B] ring_room [OF room that] a that
      by (simp add: int_points_def)
    moreover from a have "Area_Eval (Inr (VPolygon p)) = Inr (VFloat64 (Fin (polygon_area p)))"
      using Area_Eval_exact [of B p] by blast
    ultimately show ?thesis by blast
  qed
  show ?thesis
    using other poly nonneg exact by (simp add: Area_Eval_def calculateArea_ring)
qed

theorem Area_Eval_float64_witness:
  "Area_Eval (Inr (VString ''POLYGON'')) = Inl (ErrInvalidAreaArgument (VString ''POLYGON'')) \<and>
   Area_Eval (Inr (VPolygon square_with_hole)) = Inr (VFloat64 (Fin 15)) \<and>
   calculateArea (hd (Lines square_with_hole)) = Fin 16"
proof -
  note inst = Area_Eval_float64 [of "ChildError ''row''" "VString ''POLYGON''" square_with_hole
      "hd (Lines square_with_hole)" 4]
  have pts: "int_points 4 square_with_hole"
    by (simp add: int_points_def int_coordinate_def)
  have cnt: "2 * 4 * 4 * point_count square_with_hole < 2 ^ 52"
    by (simp add: point_count_def)
  have outer: "ring_area (hd (Lines square_with_hole)) = 16"
    by (simp add: ring_area_def shoelace_sum_Cons2 shoelace_sum_short)
  have area: "polygon_area square_with_hole = 15"
    by (simp add: polygon_area_def ring_area_def shoelace_sum_Cons2 shoelace_sum_short)
  from inst have "Area_Eval (Inr (VString ''POLYGON''))
      = Inl (ErrInvalidAreaArgument (VString ''POLYGON''))" by simp
  moreover from inst pts cnt have
    "Area_Eval (Inr (VPolygon square_with_hole)) = Inr (VFloat64 (Fin (polygon_area square_with_hole)))"
    by blast
  moreover from inst pts cnt have
    "\<forall>ring \<in> set (Lines square_with_hole). calculateArea ring = Fin (ring_area ring) \<and> 0 \<le> ring_area ring"
    by blast
  then have "calculateArea (hd (Lines square_with_hole)) = Fin (ring_area (hd (Lines square_with_hole)))"
    by simp
  ultimately show ?thesis by (simp only: area outer)
qed



section \<open>Properties of the INSERT analyzer rules\<close>

lemma values_loop_iff:
  "values_loop n tuples = (if \<exists>t \<in> set tuples. length t \<noteq> n then Some ErrInsertIntoMismatchValueCount else None)"
  by (induction tuples) auto

text \<open>
  C8: \<open>validateValueCount\<close> fails exactly when the width of the source rows does not fit the
  insert column list (some VALUES tuple of another length, a LOAD DATA column count that
  differs, or another source whose schema width differs), the failure is always
  \<open>ErrInsertIntoMismatchValueCount\<close>, and otherwise the check passes.
\<close>

theorem validateValueCount_iff:
  "(validateValueCount Schema columnNames source \<noteq> None \<longleftrightarrow>
      width_mismatch Schema columnNames source) \<and>
   (validateValueCount Schema columnNames source = None \<or>
    validateValueCount Schema columnNames source = Some ErrInsertIntoMismatchValueCount)"
  by (cases "unwrap_exchange source")
     (auto simp: validateValueCount_def width_mismatch_def values_loop_iff Let_def)

theorem validateValueCount_iff_witness:
  "validateValueCount (\<lambda>n. []) [''a'', ''b'']
      (Values [[ELiteral ''1'', ELiteral ''2''], [ELiteral ''3'']])
     = Some ErrInsertIntoMismatchValueCount \<and>
   width_mismatch (\<lambda>n. []) [''a'', ''b'']
      (Values [[ELiteral ''1'', ELiteral ''2''], [ELiteral ''3'']]) \<and>
   validateValueCount (\<lambda>n. []) [''a'', ''b'']
      (Exchange (Values [[ELiteral ''1'', ELiteral ''2''], [ELiteral ''3'', ELiteral ''4'']]))
     = None \<and>
   \<not> width_mismatch (\<lambda>n. []) [''a'', ''b'']
      (Exchange (Values [[ELiteral ''1'', ELiteral ''2''], [ELiteral ''3'', ELiteral ''4'']]))"
  using validateValueCount_iff [of "\<lambda>n. []" "[''a'', ''b'']"
          "Values [[ELiteral ''1'', ELiteral ''2''], [ELiteral ''3'']]"]
        validateValueCount_iff [of "\<lambda>n. []" "[''a'', ''b'']"
          "Exchange (Values [[ELiteral ''1'', ELiteral ''2''], [ELiteral ''3'', ELiteral ''4'']])"]
  by (auto simp: width_mismatch_def unwrap_exchange_def)


lemma find_column_None: "find_column EqualFold j name cols = None \<longleftrightarrow> (\<forall>col \<in> set cols. \<not> EqualFold name col)"
  by (induction cols arbitrary: j) auto

lemma omitted_find: "omitted EqualFold columnNames f \<longleftrightarrow> find_column EqualFold 0 (Name f) columnNames = None"
  by (simp add: omitted_def find_column_None)

lemma projExpr_omitted_bad:
  "omitted EqualFold columnNames f \<Longrightarrow> \<not> Nullable f \<Longrightarrow> Default f = None \<Longrightarrow> \<not> AutoIncrement f \<Longrightarrow>
   projExpr EqualFold fixDefault aiFailure columnNames f = Inl (ErrInsertIntoNonNullableDefaultNullColumn (Name f))"
  by (simp add: projExpr_def omitted_find)

lemma projExpr_omitted_ok:
  "omitted EqualFold columnNames f \<Longrightarrow> Nullable f \<or> Default f \<noteq> None \<or> AutoIncrement f \<Longrightarrow>
   fixDefault (Default f) = Inr d \<Longrightarrow> AutoIncrement f \<longrightarrow> aiFailure = None \<Longrightarrow>
   projExpr EqualFold fixDefault aiFailure columnNames f = Inr (if AutoIncrement f then EAutoIncrement d else d)"
  by (auto simp: projExpr_def omitted_find NewAutoIncrement_def)

lemma projExpr_named:
  "\<not> omitted EqualFold columnNames f \<Longrightarrow> AutoIncrement f \<longrightarrow> aiFailure = None \<Longrightarrow>
   \<exists>e. projExpr EqualFold fixDefault aiFailure columnNames f = Inr e"
  by (auto simp: projExpr_def omitted_find NewAutoIncrement_def split: option.splits)

lemma projExprs_loop_Inr:
  "projExprs_loop EqualFold fixDefault aiFailure columnNames schema = Inr es \<longleftrightarrow>
     length es = length schema \<and>
     (\<forall>i < length schema. projExpr EqualFold fixDefault aiFailure columnNames (schema ! i) = Inr (es ! i))"
proof (induction schema arbitrary: es)
  case Nil
  then show ?case by auto
next
  case (Cons f schema)
  show ?case
  proof (cases es)
    case Nil
    then show ?thesis by (auto split: sum.splits)
  next
    case (Cons e es')
    then show ?thesis
      using Cons.IH[of es']
      by (auto simp: less_Suc_eq_0_disj split: sum.splits)
  qed
qed

lemma projExprs_loop_fails:
  "f \<in> set schema \<Longrightarrow> projExpr EqualFold fixDefault aiFailure columnNames f = Inl err \<Longrightarrow>
   \<exists>err'. projExprs_loop EqualFold fixDefault aiFailure columnNames schema = Inl err'"
  by (induction schema) (auto split: sum.splits)

lemma projExprs_loop_first_failure:
  "\<forall>g \<in> set pre. \<exists>e. projExpr EqualFold fixDefault aiFailure columnNames g = Inr e \<Longrightarrow>
   projExpr EqualFold fixDefault aiFailure columnNames f = Inl err \<Longrightarrow>
   projExprs_loop EqualFold fixDefault aiFailure columnNames (pre @ f # post) = Inl err"
  by (induction pre) (auto split: sum.splits)

lemma projExprs_loop_total:
  "\<forall>g \<in> set schema. \<exists>e. projExpr EqualFold fixDefault aiFailure columnNames g = Inr e \<Longrightarrow>
   \<exists>es. projExprs_loop EqualFold fixDefault aiFailure columnNames schema = Inr es"
  by (induction schema) (auto split: sum.splits)

lemma validateColumns_loop_append:
  "validateColumns_loop m t (pre @ rest) used =
     (case validateColumns_loop m t pre used of
        Some e \<Rightarrow> Some e
      | None \<Rightarrow> validateColumns_loop m t rest (used \<union> set pre))"
  by (induction pre arbitrary: used) (auto split: option.splits)

lemma dstColNames_of_snoc:
  "dstColNames_of ToLower (cols @ [c]) = (dstColNames_of ToLower cols)(ToLower (Name c) \<mapsto> c)"
  by (simp add: dstColNames_of_def)

lemma dstColNames_of_distinct:
  "distinct (map (\<lambda>c. ToLower (Name c)) dstSchema) \<Longrightarrow> g \<in> set dstSchema \<Longrightarrow>
   dstColNames_of ToLower dstSchema (ToLower (Name g)) = Some g"
proof (induction dstSchema rule: rev_induct)
  case Nil
  then show ?case by simp
next
  case (snoc c cols)
  show ?case
  proof (cases "g = c")
    case True
    then show ?thesis by (simp add: dstColNames_of_snoc)
  next
    case False
    with snoc.prems have g: "g \<in> set cols" by simp
    from snoc.prems have "ToLower (Name c) \<notin> (\<lambda>c. ToLower (Name c)) ` set cols" by simp
    with g have "ToLower (Name g) \<noteq> ToLower (Name c)" by (metis imageI)
    with snoc g show ?thesis by (simp add: dstColNames_of_snoc)
  qed
qed

lemma resolveInsertRows_named:
  "ColumnNames \<noteq> [] \<or> \<not> existsNonZeroValueCount source \<Longrightarrow>
   resolveInsertRows ToLower EqualFold ops Schema fixDefault aiFailure
       tableName dstSchema destSchema ColumnNames source =
     (case validateColumns ToLower tableName (map ToLower ColumnNames) dstSchema of
        Some err \<Rightarrow> Inl err
      | None \<Rightarrow>
          (case validateValueCount Schema (map ToLower ColumnNames) source of
             Some err \<Rightarrow> Inl err
           | None \<Rightarrow>
               wrapRowSource EqualFold ops Schema fixDefault aiFailure source destSchema
                 (map ToLower ColumnNames)))"
  by (auto simp: resolveInsertRows_def Let_def split: option.splits)

lemma wrapRowSource_omitted_bad:
  assumes "f \<in> set schema" "omitted EqualFold columnNames f"
    "\<not> Nullable f" "Default f = None" "\<not> AutoIncrement f"
  shows "\<exists>err. wrapRowSource EqualFold ops Schema fixDefault aiFailure src schema columnNames = Inl err"
proof -
  from assms have "projExpr EqualFold fixDefault aiFailure columnNames f
      = Inl (ErrInsertIntoNonNullableDefaultNullColumn (Name f))"
    by (simp add: projExpr_omitted_bad)
  with assms obtain err where
    "projExprs_loop EqualFold fixDefault aiFailure columnNames schema = Inl err"
    using projExprs_loop_fails by blast
  then show ?thesis by (simp add: wrapRowSource_def)
qed

lemma validateColumns_generated:
  assumes "distinct (map (\<lambda>c. ToLower (Name c)) dstSchema)" "g \<in> set dstSchema"
    "Generated g \<noteq> None" "validateColumns ToLower tableName before dstSchema = None"
  shows "validateColumns ToLower tableName (before @ ToLower (Name g) # rest) dstSchema
        = Some (ErrGeneratedColumnValue (Name g) tableName)"
proof -
  from assms have look: "dstColNames_of ToLower dstSchema (ToLower (Name g)) = Some g"
    by (simp add: dstColNames_of_distinct)
  have "validateColumns_loop (dstColNames_of ToLower dstSchema) tableName
          (ToLower (Name g) # rest) used = Some (ErrGeneratedColumnValue (Name g) tableName)" for used
    using look assms by simp
  with assms show ?thesis
    unfolding validateColumns_def validateColumns_loop_append by simp
qed

lemma validateColumns_generated_fails:
  assumes "distinct (map (\<lambda>c. ToLower (Name c)) dstSchema)" "g \<in> set dstSchema"
    "Generated g \<noteq> None" "ToLower (Name g) \<in> set names"
  shows "validateColumns ToLower tableName names dstSchema \<noteq> None"
proof -
  from assms have look: "dstColNames_of ToLower dstSchema (ToLower (Name g)) = Some g"
    by (simp add: dstColNames_of_distinct)
  from assms obtain before rest where split: "names = before @ ToLower (Name g) # rest"
    by (meson split_list)
  have "validateColumns_loop (dstColNames_of ToLower dstSchema) tableName
          (ToLower (Name g) # rest) used \<noteq> None" for used
    using look assms by simp
  then show ?thesis
    unfolding validateColumns_def split validateColumns_loop_append
    by (simp split: option.splits)
qed

text \<open>
  C3: a destination column that the column list omits and that is NOT NULL, without default
  and not auto-increment makes \<open>wrapRowSource\<close> fail, with
  \<open>ErrInsertIntoNonNullableDefaultNullColumn\<close> for that column when the columns before it
  raised no error. When every omitted column is nullable, has a default or is
  auto-increment, and the default rewriting, the increment generator and the validation of
  the projection that was built raise no error, the result is the projection over the
  source, which holds for every omitted column its rewritten default, inside an increment
  generator when the column is auto-increment. A generated column named in the column list
  makes \<open>validateColumns\<close> fail, with \<open>ErrGeneratedColumnValue\<close> when the names before it
  pass. For the rule \<open>resolveInsertRows\<close> as a whole: with a column list (or a VALUES
  source of empty tuples only) it fails when such a NOT NULL column is omitted, it fails
  when a generated column is named, with \<open>ErrGeneratedColumnValue\<close> when the names before
  it pass, and when the column list and the width of the source are accepted its result
  is the result of \<open>wrapRowSource\<close> for the lower-cased column list.
\<close>

theorem insert_column_list:
  "(f \<in> set schema \<and> omitted EqualFold columnNames f \<and>
      \<not> Nullable f \<and> Default f = None \<and> \<not> AutoIncrement f \<longrightarrow>
      (\<exists>err. wrapRowSource EqualFold ops Schema fixDefault aiFailure src schema columnNames
                = Inl err)) \<and>
   (omitted EqualFold columnNames f \<and> \<not> Nullable f \<and> Default f = None \<and> \<not> AutoIncrement f \<and>
      (\<forall>c \<in> set pre. \<exists>e. projExpr EqualFold fixDefault aiFailure columnNames c = Inr e) \<longrightarrow>
      wrapRowSource EqualFold ops Schema fixDefault aiFailure src (pre @ f # post) columnNames
        = Inl (ErrInsertIntoNonNullableDefaultNullColumn (Name f))) \<and>
   ((\<forall>c \<in> set schema. omitted EqualFold columnNames c \<longrightarrow>
        (Nullable c \<or> Default c \<noteq> None \<or> AutoIncrement c) \<and>
        (\<exists>d. fixDefault (Default c) = Inr d)) \<and>
    ((\<exists>c \<in> set schema. AutoIncrement c) \<longrightarrow> aiFailure = None) \<and>
    (\<forall>es. projExprs_loop EqualFold fixDefault aiFailure columnNames schema = Inr es \<longrightarrow>
          validateRowSource ops Schema src es = None) \<longrightarrow>
      (\<exists>projExprs.
         wrapRowSource EqualFold ops Schema fixDefault aiFailure src schema columnNames
           = Inr (Project projExprs src) \<and>
         length projExprs = length schema \<and>
         (\<forall>i < length schema. omitted EqualFold columnNames (schema ! i) \<longrightarrow>
            (\<exists>d. fixDefault (Default (schema ! i)) = Inr d \<and>
                 projExprs ! i = (if AutoIncrement (schema ! i) then EAutoIncrement d else d))))) \<and>
   (distinct (map (\<lambda>c. ToLower (Name c)) dstSchema) \<and> g \<in> set dstSchema \<and>
      Generated g \<noteq> None \<and> ToLower (Name g) \<in> set names \<longrightarrow>
      validateColumns ToLower tableName names dstSchema \<noteq> None) \<and>
   (distinct (map (\<lambda>c. ToLower (Name c)) dstSchema) \<and> g \<in> set dstSchema \<and>
      Generated g \<noteq> None \<and> validateColumns ToLower tableName before dstSchema = None \<longrightarrow>
      validateColumns ToLower tableName (before @ ToLower (Name g) # rest) dstSchema
        = Some (ErrGeneratedColumnValue (Name g) tableName)) \<and>
   (f \<in> set destSchema \<and> omitted EqualFold (map ToLower ColumnNames) f \<and>
      \<not> Nullable f \<and> Default f = None \<and> \<not> AutoIncrement f \<and>
      (ColumnNames \<noteq> [] \<or> \<not> existsNonZeroValueCount source) \<longrightarrow>
      (\<exists>err. resolveInsertRows ToLower EqualFold ops Schema fixDefault aiFailure
                tableName dstSchema destSchema ColumnNames source = Inl err)) \<and>
   (distinct (map (\<lambda>c. ToLower (Name c)) dstSchema) \<and> g \<in> set dstSchema \<and>
      Generated g \<noteq> None \<and> n \<in> set ColumnNames \<and> ToLower n = ToLower (Name g) \<longrightarrow>
      (\<exists>err. resolveInsertRows ToLower EqualFold ops Schema fixDefault aiFailure
                tableName dstSchema destSchema ColumnNames source = Inl err)) \<and>
   (distinct (map (\<lambda>c. ToLower (Name c)) dstSchema) \<and> g \<in> set dstSchema \<and>
      Generated g \<noteq> None \<and> ToLower n = ToLower (Name g) \<and>
      validateColumns ToLower tableName (map ToLower front) dstSchema = None \<longrightarrow>
      resolveInsertRows ToLower EqualFold ops Schema fixDefault aiFailure
          tableName dstSchema destSchema (front @ n # back) source
        = Inl (ErrGeneratedColumnValue (Name g) tableName)) \<and>
   ((ColumnNames \<noteq> [] \<or> \<not> existsNonZeroValueCount source) \<and>
      validateColumns ToLower tableName (map ToLower ColumnNames) dstSchema = None \<and>
      validateValueCount Schema (map ToLower ColumnNames) source = None \<longrightarrow>
      resolveInsertRows ToLower EqualFold ops Schema fixDefault aiFailure
          tableName dstSchema destSchema ColumnNames source
        = wrapRowSource EqualFold ops Schema fixDefault aiFailure source destSchema
            (map ToLower ColumnNames))"
proof (intro conjI impI)
  assume "f \<in> set schema \<and> omitted EqualFold columnNames f \<and>
      \<not> Nullable f \<and> Default f = None \<and> \<not> AutoIncrement f"
  then show "\<exists>err. wrapRowSource EqualFold ops Schema fixDefault aiFailure src schema columnNames
                = Inl err"
    using wrapRowSource_omitted_bad by blast
next
  assume a: "omitted EqualFold columnNames f \<and> \<not> Nullable f \<and> Default f = None \<and> \<not> AutoIncrement f \<and>
      (\<forall>c \<in> set pre. \<exists>e. projExpr EqualFold fixDefault aiFailure columnNames c = Inr e)"
  then have "projExpr EqualFold fixDefault aiFailure columnNames f
      = Inl (ErrInsertIntoNonNullableDefaultNullColumn (Name f))"
    by (simp add: projExpr_omitted_bad)
  with a have "projExprs_loop EqualFold fixDefault aiFailure columnNames (pre @ f # post)
      = Inl (ErrInsertIntoNonNullableDefaultNullColumn (Name f))"
    using projExprs_loop_first_failure by blast
  then show "wrapRowSource EqualFold ops Schema fixDefault aiFailure src (pre @ f # post) columnNames
        = Inl (ErrInsertIntoNonNullableDefaultNullColumn (Name f))"
    by (simp add: wrapRowSource_def)
next
  assume a: "(\<forall>c \<in> set schema. omitted EqualFold columnNames c \<longrightarrow>
        (Nullable c \<or> Default c \<noteq> None \<or> AutoIncrement c) \<and>
        (\<exists>d. fixDefault (Default c) = Inr d)) \<and>
    ((\<exists>c \<in> set schema. AutoIncrement c) \<longrightarrow> aiFailure = None) \<and>
    (\<forall>es. projExprs_loop EqualFold fixDefault aiFailure columnNames schema = Inr es \<longrightarrow>
          validateRowSource ops Schema src es = None)"
  have each: "\<exists>e. projExpr EqualFold fixDefault aiFailure columnNames c = Inr e"
    if "c \<in> set schema" for c
  proof (cases "omitted EqualFold columnNames c")
    case True
    with a that obtain d where "fixDefault (Default c) = Inr d"
      and "Nullable c \<or> Default c \<noteq> None \<or> AutoIncrement c" by blast
    moreover from a that have "AutoIncrement c \<longrightarrow> aiFailure = None" by blast
    ultimately show ?thesis using True projExpr_omitted_ok by blast
  next
    case False
    moreover from a that have "AutoIncrement c \<longrightarrow> aiFailure = None" by blast
    ultimately show ?thesis using projExpr_named by blast
  qed
  then obtain es where es: "projExprs_loop EqualFold fixDefault aiFailure columnNames schema = Inr es"
    using projExprs_loop_total by blast
  then have len: "length es = length schema"
    and nth: "\<forall>i < length schema.
        projExpr EqualFold fixDefault aiFailure columnNames (schema ! i) = Inr (es ! i)"
    by (simp_all add: projExprs_loop_Inr)
  from a es have "validateRowSource ops Schema src es = None" by blast
  with es have wrap: "wrapRowSource EqualFold ops Schema fixDefault aiFailure src schema columnNames
      = Inr (Project es src)"
    by (simp add: wrapRowSource_def)
  have om: "\<exists>d. fixDefault (Default (schema ! i)) = Inr d \<and>
        es ! i = (if AutoIncrement (schema ! i) then EAutoIncrement d else d)"
    if "i < length schema" "omitted EqualFold columnNames (schema ! i)" for i
  proof -
    from that have mem: "schema ! i \<in> set schema" by simp
    with a that obtain d where d: "fixDefault (Default (schema ! i)) = Inr d"
      and ok: "Nullable (schema ! i) \<or> Default (schema ! i) \<noteq> None \<or> AutoIncrement (schema ! i)"
      by blast
    from a mem have "AutoIncrement (schema ! i) \<longrightarrow> aiFailure = None" by blast
    with that d ok have "projExpr EqualFold fixDefault aiFailure columnNames (schema ! i)
        = Inr (if AutoIncrement (schema ! i) then EAutoIncrement d else d)"
      using projExpr_omitted_ok by blast
    with nth that d show ?thesis by simp
  qed
  show "\<exists>projExprs.
         wrapRowSource EqualFold ops Schema fixDefault aiFailure src schema columnNames
           = Inr (Project projExprs src) \<and>
         length projExprs = length schema \<and>
         (\<forall>i < length schema. omitted EqualFold columnNames (schema ! i) \<longrightarrow>
            (\<exists>d. fixDefault (Default (schema ! i)) = Inr d \<and>
                 projExprs ! i = (if AutoIncrement (schema ! i) then EAutoIncrement d else d)))"
    using wrap len om by blast
next
  assume "distinct (map (\<lambda>c. ToLower (Name c)) dstSchema) \<and> g \<in> set dstSchema \<and>
      Generated g \<noteq> None \<and> ToLower (Name g) \<in> set names"
  then show "validateColumns ToLower tableName names dstSchema \<noteq> None"
    using validateColumns_generated_fails by blast
next
  assume "distinct (map (\<lambda>c. ToLower (Name c)) dstSchema) \<and> g \<in> set dstSchema \<and>
      Generated g \<noteq> None \<and> validateColumns ToLower tableName before dstSchema = None"
  then show "validateColumns ToLower tableName (before @ ToLower (Name g) # rest) dstSchema
        = Some (ErrGeneratedColumnValue (Name g) tableName)"
    using validateColumns_generated by blast
next
  assume a: "f \<in> set destSchema \<and> omitted EqualFold (map ToLower ColumnNames) f \<and>
      \<not> Nullable f \<and> Default f = None \<and> \<not> AutoIncrement f \<and>
      (ColumnNames \<noteq> [] \<or> \<not> existsNonZeroValueCount source)"
  then obtain err where
    "wrapRowSource EqualFold ops Schema fixDefault aiFailure source destSchema
       (map ToLower ColumnNames) = Inl err"
    using wrapRowSource_omitted_bad by blast
  with a show "\<exists>err. resolveInsertRows ToLower EqualFold ops Schema fixDefault aiFailure
                tableName dstSchema destSchema ColumnNames source = Inl err"
    by (simp add: resolveInsertRows_named split: option.splits)
next
  assume a: "distinct (map (\<lambda>c. ToLower (Name c)) dstSchema) \<and> g \<in> set dstSchema \<and>
      Generated g \<noteq> None \<and> n \<in> set ColumnNames \<and> ToLower n = ToLower (Name g)"
  then have "ToLower n \<in> ToLower ` set ColumnNames" by blast
  with a have "ToLower (Name g) \<in> set (map ToLower ColumnNames)" by simp
  with a have "validateColumns ToLower tableName (map ToLower ColumnNames) dstSchema \<noteq> None"
    using validateColumns_generated_fails by blast
  moreover from a have "ColumnNames \<noteq> []" by auto
  ultimately show "\<exists>err. resolveInsertRows ToLower EqualFold ops Schema fixDefault aiFailure
                tableName dstSchema destSchema ColumnNames source = Inl err"
    by (auto simp: resolveInsertRows_named)
next
  assume a: "distinct (map (\<lambda>c. ToLower (Name c)) dstSchema) \<and> g \<in> set dstSchema \<and>
      Generated g \<noteq> None \<and> ToLower n = ToLower (Name g) \<and>
      validateColumns ToLower tableName (map ToLower front) dstSchema = None"
  then have "validateColumns ToLower tableName (map ToLower front @ ToLower (Name g) # map ToLower back)
       dstSchema = Some (ErrGeneratedColumnValue (Name g) tableName)"
    using validateColumns_generated by blast
  with a show "resolveInsertRows ToLower EqualFold ops Schema fixDefault aiFailure
          tableName dstSchema destSchema (front @ n # back) source
        = Inl (ErrGeneratedColumnValue (Name g) tableName)"
    by (simp add: resolveInsertRows_named)
next
  assume "(ColumnNames \<noteq> [] \<or> \<not> existsNonZeroValueCount source) \<and>
      validateColumns ToLower tableName (map ToLower ColumnNames) dstSchema = None \<and>
      validateValueCount Schema (map ToLower ColumnNames) source = None"
  then show "resolveInsertRows ToLower EqualFold ops Schema fixDefault aiFailure
          tableName dstSchema destSchema ColumnNames source
        = wrapRowSource EqualFold ops Schema fixDefault aiFailure source destSchema
            (map ToLower ColumnNames)"
    by (simp add: resolveInsertRows_named)
qed

lemmas names_eval = omitted_def ascii_EqualFold_def ascii_ToLower_def ascii_lower_char_def

theorem insert_column_list_witness:
  "wrapRowSource ascii_EqualFold lenient_ops (\<lambda>n. []) keep_default None (Values [[ELiteral ''7'']])
      [col_id, col_name, col_note] [''id'']
     = Inl (ErrInsertIntoNonNullableDefaultNullColumn ''name'') \<and>
   wrapRowSource ascii_EqualFold lenient_ops (\<lambda>n. [col_name]) keep_default None
      (OtherNode ''SELECT nickname FROM people'') [col_id, col_name, col_note] [''name'']
     = Inr (Project
         [EAutoIncrement (EColumnDefaultValue (ELiteral ''NULL'')),
          EGetField 0 (BaseType ''text'') ''name'' False,
          EColumnDefaultValue (ELiteral ''n/a'')]
         (OtherNode ''SELECT nickname FROM people'')) \<and>
   validateColumns ascii_ToLower ''t'' [''name'', ''total''] [col_id, col_name, col_note, col_total]
     = Some (ErrGeneratedColumnValue ''total'' ''t'') \<and>
   resolveInsertRows ascii_ToLower ascii_EqualFold lenient_ops (\<lambda>n. []) keep_default None ''t''
      [col_id, col_name, col_note, col_total] [col_id, col_name, col_note, col_total]
      [''Name'', ''TOTAL''] (Values [[ELiteral ''Ann'', ELiteral ''3'']])
     = Inl (ErrGeneratedColumnValue ''total'' ''t'')"
proof -
  have fails: "wrapRowSource ascii_EqualFold lenient_ops (\<lambda>n. []) keep_default None
      (Values [[ELiteral ''7'']]) ([col_id] @ col_name # [col_note]) [''id'']
     = Inl (ErrInsertIntoNonNullableDefaultNullColumn (Name col_name))"
    by (rule insert_column_list [THEN conjunct2, THEN conjunct1, THEN mp])
       (simp add: names_eval projExpr_def NewAutoIncrement_def)
  have "\<exists>projExprs.
         wrapRowSource ascii_EqualFold lenient_ops (\<lambda>n. [col_name]) keep_default None
           (OtherNode ''SELECT nickname FROM people'') [col_id, col_name, col_note] [''name'']
           = Inr (Project projExprs (OtherNode ''SELECT nickname FROM people'')) \<and>
         length projExprs = length [col_id, col_name, col_note] \<and>
         (\<forall>i < length [col_id, col_name, col_note].
            omitted ascii_EqualFold [''name''] ([col_id, col_name, col_note] ! i) \<longrightarrow>
            (\<exists>d. keep_default (Default ([col_id, col_name, col_note] ! i)) = Inr d \<and>
                 projExprs ! i = (if AutoIncrement ([col_id, col_name, col_note] ! i)
                                  then EAutoIncrement d else d)))"
    by (rule insert_column_list [THEN conjunct2, THEN conjunct2, THEN conjunct1, THEN mp])
       (simp add: names_eval projExpr_def NewAutoIncrement_def validateRowSource_def
                  unwrap_exchange_def)
  then obtain projExprs where
    w: "wrapRowSource ascii_EqualFold lenient_ops (\<lambda>n. [col_name]) keep_default None
           (OtherNode ''SELECT nickname FROM people'') [col_id, col_name, col_note] [''name'']
           = Inr (Project projExprs (OtherNode ''SELECT nickname FROM people''))"
    by blast
  have run: "wrapRowSource ascii_EqualFold lenient_ops (\<lambda>n. [col_name]) keep_default None
      (OtherNode ''SELECT nickname FROM people'') [col_id, col_name, col_note] [''name'']
     = Inr (Project
         [EAutoIncrement (EColumnDefaultValue (ELiteral ''NULL'')),
          EGetField 0 (BaseType ''text'') ''name'' False,
          EColumnDefaultValue (ELiteral ''n/a'')]
         (OtherNode ''SELECT nickname FROM people''))"
    by (simp add: wrapRowSource_def projExpr_def NewAutoIncrement_def names_eval
                  validateRowSource_def unwrap_exchange_def)
  have gen: "validateColumns ascii_ToLower ''t'' ([''name''] @ ascii_ToLower (Name col_total) # [])
               [col_id, col_name, col_note, col_total]
     = Some (ErrGeneratedColumnValue (Name col_total) ''t'')"
    by (rule insert_column_list [THEN conjunct2, THEN conjunct2, THEN conjunct2, THEN conjunct2,
              THEN conjunct1, THEN mp])
       (simp add: names_eval validateColumns_def dstColNames_of_def)
  have rule: "resolveInsertRows ascii_ToLower ascii_EqualFold lenient_ops (\<lambda>n. []) keep_default
      None ''t'' [col_id, col_name, col_note, col_total] [col_id, col_name, col_note, col_total]
      ([''Name''] @ ''TOTAL'' # []) (Values [[ELiteral ''Ann'', ELiteral ''3'']])
     = Inl (ErrGeneratedColumnValue (Name col_total) ''t'')"
    by (rule insert_column_list [THEN conjunct2, THEN conjunct2, THEN conjunct2, THEN conjunct2,
              THEN conjunct2, THEN conjunct2, THEN conjunct2, THEN conjunct1, THEN mp])
       (simp add: names_eval validateColumns_def dstColNames_of_def)
  from fails w run gen rule show ?thesis by (simp add: names_eval)
qed


section \<open>Properties of the JSON model\<close>

subsection \<open>Comparison\<close>

lemma compare_values_refl [simp]: "compare_values x x = 0"
  by (simp add: compare_values_def)

lemma compare_values_eq_0 [simp]: "compare_values x y = 0 \<longleftrightarrow> x = y"
  by (auto simp: compare_values_def)

lemma compare_values_less [simp]: "compare_values x y < 0 \<longleftrightarrow> x < y"
  by (auto simp: compare_values_def)

lemma compare_values_flip: "compare_values y x = - compare_values x y"
  by (auto simp: compare_values_def)

lemma compare_values_range: "compare_values x y \<in> {- 1, 0, 1}"
  by (simp add: compare_values_def)

lemma compareJSON_range:
  fixes a b :: "'n::linorder json" and xs ys :: "'n json list"
    and ks ls :: "(string \<times> 'n json) list"
  shows "compareJSON a b \<in> {- 1, 0, 1}"
    and "compareJSONArray xs ys \<in> {- 1, 0, 1}"
    and "compareJSONObject ks ls \<in> {- 1, 0, 1}"
  by (induction a b and xs ys and ks ls rule: compareJSON_compareJSONArray_compareJSONObject.induct)
     (auto simp: compare_values_def Let_def)

lemma compareJSON_flip:
  fixes a b :: "'n::linorder json" and xs ys :: "'n json list"
    and ks ls :: "(string \<times> 'n json) list"
  shows "compareJSON b a = - compareJSON a b"
    and "compareJSONArray ys xs = - compareJSONArray xs ys"
    and "compareJSONObject ls ks = - compareJSONObject ks ls"
  by (induction a b and xs ys and ks ls rule: compareJSON_compareJSONArray_compareJSONObject.induct)
     (auto simp: Let_def compare_values_def)

lemma compareJSON_eq_0:
  fixes a b :: "'n::linorder json" and xs ys :: "'n json list"
    and ks ls :: "(string \<times> 'n json) list"
  shows "compareJSON a b = 0 \<longleftrightarrow> a = b"
    and "compareJSONArray xs ys = 0 \<longleftrightarrow> xs = ys"
    and "compareJSONObject ks ls = 0 \<longleftrightarrow> ks = ls"
  by (induction a b and xs ys and ks ls rule: compareJSON_compareJSONArray_compareJSONObject.induct)
     (simp_all add: Let_def)

lemma compareJSON_refl:
  fixes a :: "'n::linorder json"
  shows "compareJSON a a = 0"
  by (simp add: compareJSON_eq_0)

lemma compareJSONArray_trans:
  fixes xs :: "'n::linorder json list"
  shows "compareJSONArray xs ys < 0 \<Longrightarrow> compareJSONArray ys zs < 0 \<Longrightarrow>
         (\<And>x y z. x \<in> set xs \<Longrightarrow> compareJSON x y < 0 \<Longrightarrow> compareJSON y z < 0
             \<Longrightarrow> compareJSON x z < 0) \<Longrightarrow>
         compareJSONArray xs zs < 0"
proof (induction xs arbitrary: ys zs)
  case Nil
  from Nil.prems(1) obtain y ys' where "ys = y # ys'" by (cases ys) auto
  with Nil.prems(2) obtain z zs' where "zs = z # zs'" by (cases zs) auto
  then show ?case by simp
next
  case (Cons x xs)
  from Cons.prems(1) obtain y ys' where ys: "ys = y # ys'" by (cases ys) auto
  from Cons.prems(2) ys obtain z zs' where zs: "zs = z # zs'" by (cases zs) auto
  have xy: "compareJSON x y < 0 \<or> (x = y \<and> compareJSONArray xs ys' < 0)"
    using Cons.prems(1) unfolding ys
    by (simp add: Let_def compareJSON_eq_0 split: if_splits)
  have yz: "compareJSON y z < 0 \<or> (y = z \<and> compareJSONArray ys' zs' < 0)"
    using Cons.prems(2) unfolding ys zs
    by (simp add: Let_def compareJSON_eq_0 split: if_splits)
  have step: "compareJSON x z < 0 \<or> (x = z \<and> compareJSONArray xs zs' < 0)"
  proof -
    consider (a) "compareJSON x y < 0" "compareJSON y z < 0"
      | (b) "compareJSON x y < 0" "y = z"
      | (c) "x = y" "compareJSON y z < 0"
      | (d) "x = y" "y = z" "compareJSONArray xs ys' < 0" "compareJSONArray ys' zs' < 0"
      using xy yz by blast
    then show ?thesis
    proof cases
      case a
      have "compareJSON x z < 0" by (rule Cons.prems(3)[OF _ a]) simp
      then show ?thesis ..
    next
      case b
      then show ?thesis by blast
    next
      case c
      then show ?thesis by blast
    next
      case d
      have "compareJSONArray xs zs' < 0"
      proof (rule Cons.IH[OF d(3) d(4)])
        fix u v w
        assume "u \<in> set xs" "compareJSON u v < 0" "compareJSON v w < 0"
        then show "compareJSON u w < 0" using Cons.prems(3)[of u v w] by simp
      qed
      with d show ?thesis by blast
    qed
  qed
  show ?case
    unfolding zs using step by (auto simp: Let_def compareJSON_refl)
qed

lemma compareJSONObject_trans:
  fixes ks :: "(string \<times> 'n::linorder json) list"
  shows "compareJSONObject ks ls < 0 \<Longrightarrow> compareJSONObject ls ms < 0 \<Longrightarrow>
         (\<And>k v y z. (k, v) \<in> set ks \<Longrightarrow> compareJSON v y < 0 \<Longrightarrow> compareJSON y z < 0
             \<Longrightarrow> compareJSON v z < 0) \<Longrightarrow>
         compareJSONObject ks ms < 0"
proof (induction ks arbitrary: ls ms)
  case Nil
  from Nil.prems(1) obtain e ls' where "ls = e # ls'" by (cases ls) auto
  with Nil.prems(2) obtain e' ms' where "ms = e' # ms'" by (cases ms) auto
  then show ?case by simp
next
  case (Cons e ks)
  obtain k v where e: "e = (k, v)" by (cases e)
  from Cons.prems(1) obtain l w ls' where ls: "ls = (l, w) # ls'" by (cases ls) auto
  from Cons.prems(2) ls obtain m u ms' where ms: "ms = (m, u) # ms'" by (cases ms) auto
  have xy: "k < l \<or> (k = l \<and> compareJSON v w < 0) \<or>
            (k = l \<and> v = w \<and> compareJSONObject ks ls' < 0)"
    using Cons.prems(1) unfolding e ls
    by (simp add: Let_def compareJSON_eq_0 split: if_splits)
  have yz: "l < m \<or> (l = m \<and> compareJSON w u < 0) \<or>
            (l = m \<and> w = u \<and> compareJSONObject ls' ms' < 0)"
    using Cons.prems(2) unfolding ls ms
    by (simp add: Let_def compareJSON_eq_0 split: if_splits)
  have el: "compareJSON v w < 0 \<Longrightarrow> compareJSON w u < 0 \<Longrightarrow> compareJSON v u < 0"
    by (rule Cons.prems(3)[of k v w u]) (simp_all add: e)
  have rest: "compareJSONObject ks ls' < 0 \<Longrightarrow> compareJSONObject ls' ms' < 0 \<Longrightarrow>
              compareJSONObject ks ms' < 0"
  proof -
    assume a: "compareJSONObject ks ls' < 0" and b: "compareJSONObject ls' ms' < 0"
    show ?thesis
    proof (rule Cons.IH[OF a b])
      fix k' v' y z
      assume "(k', v') \<in> set ks" "compareJSON v' y < 0" "compareJSON y z < 0"
      then show "compareJSON v' z < 0" using Cons.prems(3)[of k' v' y z] by simp
    qed
  qed
  have step: "k < m \<or> (k = m \<and> compareJSON v u < 0) \<or>
            (k = m \<and> v = u \<and> compareJSONObject ks ms' < 0)"
    using xy yz el rest by (elim disjE conjE) (auto intro: less_trans)
  show ?case
    unfolding e ms using step by (auto simp: Let_def compareJSON_refl)
qed

lemma compareJSON_trans:
  fixes a :: "'n::linorder json"
  shows "compareJSON a b < 0 \<Longrightarrow> compareJSON b c < 0 \<Longrightarrow> compareJSON a c < 0"
proof (induction a arbitrary: b c)
  case JNull
  then show ?case by (cases b; cases c) (simp_all split: if_splits)
next
  case (JBool x)
  then show ?case by (cases b; cases c) (auto split: if_splits)
next
  case (JNumber x)
  then show ?case by (cases b; cases c) (auto split: if_splits)
next
  case (JString x)
  then show ?case by (cases b; cases c) (auto split: if_splits)
next
  case (JArray xs)
  show ?case
  proof (cases b; cases c)
    fix ys zs
    assume b: "b = JArray ys" and c: "c = JArray zs"
    from JArray.prems b c have "compareJSONArray xs ys < 0" "compareJSONArray ys zs < 0"
      by simp_all
    then have "compareJSONArray xs zs < 0"
    proof (rule compareJSONArray_trans)
      fix x y z
      assume "x \<in> set xs" "compareJSON x y < 0" "compareJSON y z < 0"
      then show "compareJSON x z < 0" by (rule JArray.IH)
    qed
    with b c show ?thesis by simp
  qed (use JArray.prems in \<open>simp_all split: if_splits\<close>)
next
  case (JObject ks)
  show ?case
  proof (cases b; cases c)
    fix ls ms
    assume b: "b = JObject ls" and c: "c = JObject ms"
    from JObject.prems b c have "compareJSONObject ks ls < 0" "compareJSONObject ls ms < 0"
      by simp_all
    then have "compareJSONObject ks ms < 0"
    proof (rule compareJSONObject_trans)
      fix k v y z
      assume "(k, v) \<in> set ks" "compareJSON v y < 0" "compareJSON y z < 0"
      then show "compareJSON v z < 0"
        using JObject.IH[of "(k, v)" v y z] by simp
    qed
    with b c show ?thesis by simp
  qed (use JObject.prems in \<open>simp_all split: if_splits\<close>)
qed

lemma compareJSON_le_trans:
  fixes a :: "'n::linorder json"
  assumes "compareJSON a b \<le> 0" and "compareJSON b c \<le> 0"
  shows "compareJSON a c \<le> 0"
proof (cases "a = b \<or> b = c")
  case True
  with assms show ?thesis by auto
next
  case False
  with assms have "compareJSON a b < 0" "compareJSON b c < 0"
    by (simp_all add: order.strict_iff_order compareJSON_eq_0)
  then have "compareJSON a c < 0" by (rule compareJSON_trans)
  then show ?thesis by simp
qed

lemma compareJSON_precedence:
  fixes a :: "'n::linorder json"
  shows "json_precedence a \<noteq> json_precedence b \<Longrightarrow>
         compareJSON a b = (if json_precedence b < json_precedence a then 1 else - 1)"
  by (cases a; cases b) simp_all

text \<open>The cases of \<open>TestJsonCompare\<close>, with the numbers as reals.\<close>

lemma compareJSON_tests:
  "compareJSON (JNull :: real json) (JNumber 0) = - 1"
  "compareJSON (JNull :: real json) JNull = 0"
  "compareJSON (JBool True :: real json) (JBool False) = 1"
  "compareJSON (JBool True :: real json) (JBool True) = 0"
  "compareJSON (JString ''A'' :: real json) (JString ''B'') = - 1"
  "compareJSON (JString ''C'' :: real json) (JString ''B'') = 1"
  "compareJSON (JNumber (0 :: real)) (JNumber 0.0) = 0"
  "compareJSON (JNumber (0 :: real)) (JNumber (- 1)) = 1"
  "compareJSON (JNumber (0 :: real)) (JNumber 3.14) = - 1"
  "compareJSON (JArray [JNumber (1 :: real), JNumber 2]) (JArray [JNumber 1, JNumber 2]) = 0"
  "compareJSON (JArray [JNumber (1 :: real), JNumber 9]) (JArray [JNumber 1, JNumber 2]) = 1"
  "compareJSON (JArray [JNumber (1 :: real), JNumber 2]) (JArray [JNumber 1, JNumber 2, JNumber 3])
     = - 1"
  "compareJSON (JObject [(''a'', JNumber (1 :: real))]) (JObject [(''a'', JNumber 0)]) = 1"
  "compareJSON (JObject [(''a'', JNumber (0 :: real))])
     (JObject [(''a'', JNumber 0), (''b'', JNumber 1)]) = - 1"
  "compareJSON (JObject [(''a'', JNumber (0 :: real)), (''c'', JNumber 2)])
     (JObject [(''a'', JNumber 0), (''b'', JNumber 1)]) = 1"
  by (simp_all add: compare_values_def)

text \<open>
  C4: the JSON comparison is a total order that respects the type precedence. It answers
  \<open>-1\<close>, \<open>0\<close> or \<open>1\<close>; it answers \<open>0\<close> exactly on equal values; swapping the operands negates
  the answer; it is transitive; values of different classes compare by class alone, \<open>+1\<close>
  when the left class has the higher precedence and \<open>-1\<close> when the lower; arrays and objects
  of the same class compare by their elements; and \<open>true > [0]\<close>, \<open>[0] > {"a":0}\<close>,
  \<open>{"a":0} > "a"\<close>, \<open>"a" > 0\<close>, \<open>0 > null\<close>.
\<close>

theorem compareJSON_total_order:
  fixes a b c :: "'n::linorder json"
  shows
  "compareJSON a b \<in> {- 1, 0, 1} \<and>
   (compareJSON a b = 0 \<longleftrightarrow> a = b) \<and>
   compareJSON b a = - compareJSON a b \<and>
   (compareJSON a b \<le> 0 \<and> compareJSON b c \<le> 0 \<longrightarrow> compareJSON a c \<le> 0) \<and>
   (json_precedence a \<noteq> json_precedence b \<longrightarrow>
      compareJSON a b = (if json_precedence b < json_precedence a then 1 else - 1)) \<and>
   compareJSON (JArray xs) (JArray ys) = compareJSONArray xs ys \<and>
   compareJSON (JObject ks) (JObject ls) = compareJSONObject ks ls \<and>
   compareJSON (JBool True) (JArray [JNumber (0 :: real)]) = 1 \<and>
   compareJSON (JArray [JNumber (0 :: real)]) (JObject [(''a'', JNumber 0)]) = 1 \<and>
   compareJSON (JObject [(''a'', JNumber (0 :: real))]) (JString ''a'') = 1 \<and>
   compareJSON (JString ''a'') (JNumber (0 :: real)) = 1 \<and>
   compareJSON (JNumber (0 :: real)) JNull = 1"
  using compareJSON_range(1)[of a b] compareJSON_eq_0(1)[of a b] compareJSON_flip(1)[of b a]
    compareJSON_le_trans[of a b c] compareJSON_precedence[of a b]
  by simp

theorem compareJSON_total_order_witness:
  "compareJSON (JArray [JNumber (1 :: real), JNumber 2]) (JArray [JNumber 1, JNumber 2, JNumber 3]) \<le> 0 \<and>
   compareJSON (JArray [JNumber (1 :: real), JNumber 2, JNumber 3]) (JBool False) \<le> 0 \<and>
   compareJSON (JArray [JNumber (1 :: real), JNumber 2]) (JBool False) \<le> 0 \<and>
   compareJSON (JArray [JNumber (1 :: real), JNumber 2]) (JBool False) = - 1"
proof -
  have h: "compareJSON (JArray [JNumber (1 :: real), JNumber 2])
              (JArray [JNumber 1, JNumber 2, JNumber 3]) \<le> 0 \<and>
           compareJSON (JArray [JNumber (1 :: real), JNumber 2, JNumber 3]) (JBool False) \<le> 0"
    by (simp add: compare_values_def)
  have p: "json_precedence (JArray [JNumber (1 :: real), JNumber 2]) \<noteq>
           json_precedence (JBool False :: real json)"
    by simp
  note t = compareJSON_total_order
    [of "JArray [JNumber (1 :: real), JNumber 2]" "JArray [JNumber 1, JNumber 2, JNumber 3]"
        "JBool False" "[]" "[]" "[]" "[]"]
  note u = compareJSON_total_order
    [of "JArray [JNumber (1 :: real), JNumber 2]" "JBool False" "JBool False" "[]" "[]" "[]" "[]"]
  from t h have le: "compareJSON (JArray [JNumber (1 :: real), JNumber 2]) (JBool False) \<le> 0"
    by blast
  from u p have "compareJSON (JArray [JNumber (1 :: real), JNumber 2]) (JBool False) = - 1"
    by simp
  with h le show ?thesis by blast
qed



subsection \<open>Mutation by path\<close>

lemma map_of_obj_put: "map_of (obj_put k v kvs) = (map_of kvs)(k \<mapsto> v)"
  by (induction k v kvs rule: obj_put.induct) (auto simp: fun_upd_twist)

lemma set_obj_put: "fst ` set (obj_put k v kvs) = insert k (fst ` set kvs)"
  by (induction k v kvs rule: obj_put.induct) auto

lemma sorted_obj_put:
  "sorted_wrt (<) (map fst kvs) \<Longrightarrow> sorted_wrt (<) (map fst (obj_put k v kvs))"
proof (induction k v kvs rule: obj_put.induct)
  case (1 k v)
  then show ?case by simp
next
  case (2 k v l w rest)
  have keys: "set (map fst (obj_put k v rest)) = insert k (set (map fst rest))"
    using set_obj_put[of k v rest] by simp
  from 2 show ?case
    by (auto simp: keys simp del: set_map)
qed

text \<open>
  Cases of \<open>TestJsonSet\<close>, \<open>TestJsonInsert\<close> and \<open>TestJsonReplace\<close> whose paths have field
  steps only.
\<close>

lemma mutation_tests:
  "JSONDocument_Set (JObject [(''a'', JNumber (1 :: real)), (''b'', JNumber 2)]) []
      (JObject [(''c'', JNumber 3)]) = (JObject [(''c'', JNumber 3)], True)"
  "JSONDocument_Set (JObject [(''a'', JNumber (1 :: real))]) [''a''] (JNumber 42)
     = (JObject [(''a'', JNumber 42)], True)"
  "JSONDocument_Set (JArray [JNumber (1 :: real), JNumber 2, JNumber 3]) [''a''] (JNumber 42)
     = (JArray [JNumber 1, JNumber 2, JNumber 3], False)"
  "JSONDocument_Set (JObject [(''a'', JObject [(''b'', JNumber (1 :: real))])]) [''a'', ''b'']
      (JNumber 42) = (JObject [(''a'', JObject [(''b'', JNumber 42)])], True)"
  "JSONDocument_Set (JObject []) [''a'', ''b'', ''c''] (JNumber (42 :: real)) = (JObject [], False)"
  "JSONDocument_Insert (JObject [(''a'', JNumber (1 :: real)), (''b'', JNumber 2)]) []
      (JObject [(''c'', JNumber 3)]) = (JObject [(''a'', JNumber 1), (''b'', JNumber 2)], False)"
  "JSONDocument_Insert (JObject [(''a'', JNumber (1 :: real))]) [''b''] (JNumber 42)
     = (JObject [(''a'', JNumber 1), (''b'', JNumber 42)], True)"
  "JSONDocument_Insert (JObject []) [''a'', ''b'', ''c''] (JNumber (42 :: real)) = (JObject [], False)"
  "JSONDocument_Replace (JObject [(''a'', JNumber (1 :: real)), (''b'', JNumber 2)]) []
      (JObject [(''c'', JNumber 3)]) = (JObject [(''c'', JNumber 3)], True)"
  "JSONDocument_Replace (JObject [(''a'', JNumber (1 :: real))]) [''a''] (JNumber 42)
     = (JObject [(''a'', JNumber 42)], True)"
  by (simp_all add: JSONDocument_Set_def JSONDocument_Insert_def JSONDocument_Replace_def)

text \<open>
  C6: on an object document and a top-level field path \<open>$.f\<close>, Set binds \<open>f\<close> to the new
  value and reports a change whether or not \<open>f\<close> was there; Insert adds \<open>f\<close> only when it is
  absent and otherwise returns the document unchanged with no change reported; Replace
  updates \<open>f\<close> only when it is present and otherwise returns the document unchanged with no
  change reported. Binding \<open>f\<close> changes the value at \<open>f\<close> and no other, and keeps the keys in
  order. \<open>JSON_SET('{"a":1}','$.b',42)\<close> gives \<open>{"a":1,"b":42}\<close>, \<open>JSON_INSERT('{"a":1}','$.a',42)\<close>
  and \<open>JSON_REPLACE('{"a":1}','$.b',42)\<close> give \<open>{"a":1}\<close>.
\<close>

theorem json_mutation_field:
  "JSONDocument_Set (JObject kvs) [f] v = (JObject (obj_put f v kvs), True) \<and>
   JSONDocument_Insert (JObject kvs) [f] v =
     (if f \<in> fst ` set kvs then (JObject kvs, False) else (JObject (obj_put f v kvs), True)) \<and>
   JSONDocument_Replace (JObject kvs) [f] v =
     (if f \<in> fst ` set kvs then (JObject (obj_put f v kvs), True) else (JObject kvs, False)) \<and>
   map_of (obj_put f v kvs) = (map_of kvs)(f \<mapsto> v) \<and>
   (sorted_wrt (<) (map fst kvs) \<longrightarrow> sorted_wrt (<) (map fst (obj_put f v kvs))) \<and>
   JSONDocument_Set (JObject [(''a'', JNumber (1 :: real))]) [''b''] (JNumber 42)
     = (JObject [(''a'', JNumber 1), (''b'', JNumber 42)], True) \<and>
   JSONDocument_Insert (JObject [(''a'', JNumber (1 :: real))]) [''a''] (JNumber 42)
     = (JObject [(''a'', JNumber 1)], False) \<and>
   JSONDocument_Replace (JObject [(''a'', JNumber (1 :: real))]) [''b''] (JNumber 42)
     = (JObject [(''a'', JNumber 1)], False)"
  by (simp add: JSONDocument_Set_def JSONDocument_Insert_def JSONDocument_Replace_def
        map_of_obj_put sorted_obj_put map_of_eq_None_iff)

theorem json_mutation_field_witness:
  "sorted_wrt (<) (map fst [(''a'', JNumber (1 :: real)), (''c'', JNumber 3)]) \<and>
   JSONDocument_Set (JObject [(''a'', JNumber (1 :: real)), (''c'', JNumber 3)]) [''b''] (JNumber 42)
     = (JObject [(''a'', JNumber 1), (''b'', JNumber 42), (''c'', JNumber 3)], True) \<and>
   sorted_wrt (<) (map fst (obj_put ''b'' (JNumber 42)
      [(''a'', JNumber (1 :: real)), (''c'', JNumber 3)]))"
proof -
  have s: "sorted_wrt (<) (map fst [(''a'', JNumber (1 :: real)), (''c'', JNumber 3)])"
    by simp
  note t = json_mutation_field [of "[(''a'', JNumber (1 :: real)), (''c'', JNumber 3)]" "''b''"
    "JNumber 42"]
  from t s have "sorted_wrt (<) (map fst (obj_put ''b'' (JNumber 42)
      [(''a'', JNumber (1 :: real)), (''c'', JNumber 3)]))" by blast
  moreover from t have "JSONDocument_Set (JObject [(''a'', JNumber (1 :: real)), (''c'', JNumber 3)])
      [''b''] (JNumber 42)
     = (JObject (obj_put ''b'' (JNumber 42) [(''a'', JNumber 1), (''c'', JNumber 3)]), True)"
    by blast
  ultimately show ?thesis using s by simp
qed


section \<open>Properties of the query model\<close>

text \<open>
  C9: over \<open>one_pk(pk)\<close> holding the rows 0 to 3, in this order or in another one, the query
  \<open>SELECT pk, (SELECT max(pk) FROM one_pk WHERE pk < opk.pk) FROM one_pk opk ORDER BY 1\<close>
  returns \<open>[[0,NULL],[1,0],[2,1],[3,2]]\<close> in that order; for the outer row with the smallest
  \<open>pk\<close> the subquery is NULL.
\<close>

theorem one_pk_correlated_subquery:
  "row_iter (\<lambda>n. if n = ''one_pk'' then [[IntV 0], [IntV 1], [IntV 2], [IntV 3]] else []) []
      one_pk_query
     = Inr [[IntV 0, Null], [IntV 1, IntV 0], [IntV 2, IntV 1], [IntV 3, IntV 2]] \<and>
   row_iter (\<lambda>n. if n = ''one_pk'' then [[IntV 2], [IntV 0], [IntV 3], [IntV 1]] else []) []
      one_pk_query
     = Inr [[IntV 0, Null], [IntV 1, IntV 0], [IntV 2, IntV 1], [IntV 3, IntV 2]] \<and>
   eval_expr (\<lambda>n. if n = ''one_pk'' then [[IntV 0], [IntV 1], [IntV 2], [IntV 3]] else []) []
      [IntV 0]
      (QSubquery (QMax (QField 0 0)
         (QFilter (QLessThan (QField 0 0) (QField 1 0)) (QTable ''one_pk''))))
     = Inr Null"
  by (simp add: one_pk_query_def less_than_def max_agg_def sort_rows_def)

theorem one_pk_correlated_subquery_witness:
  "row_iter (\<lambda>n. if n = ''one_pk'' then [[IntV 0], [IntV 1], [IntV 2], [IntV 3]] else []) []
      one_pk_query
     = Inr [[IntV 0, Null], [IntV 1, IntV 0], [IntV 2, IntV 1], [IntV 3, IntV 2]]"
  using one_pk_correlated_subquery by blast

end
